theory Spec2Isabelle
  imports
    Complex_Main
    "HOL-Library.Char_ord"
    "HOL-Library.List_Lexorder"
    "HOL-Library.Product_Lexorder"
    "HOL-Library.AList"
    "HOL-Library.Multiset"
begin

section \<open>The schema code generator \<open>schemas/gen.py\<close>\<close>

text \<open>
  A shallow embedding of \<open>src/schemas/gen.py\<close>. Python strings are \<open>string\<close>s (the
  model is about ASCII text: case mapping and white space are the ASCII ones), a raised
  exception is the \<open>Inl\<close> branch of a sum, the file system and the library calls the
  program makes (\<open>json.loads\<close>, \<open>os.listdir\<close>, \<open>os.walk\<close>, \<open>os.path.relpath\<close>)
  are fields of a record \<open>world\<close> that every function reads. The system is a POSIX
  one: paths are joined by \<open>posixpath\<close>, and a file opened in text mode is written
  as it is and read with \<open>\r\n\<close> and \<open>\r\<close> translated to \<open>\n\<close>. The files
  hold ASCII text, which the encoding of the locale decodes and encodes byte for byte.
\<close>

subsection \<open>Strings\<close>

abbreviation TAB :: string where
  "TAB \<equiv> [CHR 0x09]"

abbreviation NL :: string where
  "NL \<equiv> [CHR 0x0A]"

abbreviation DQ :: string where
  "DQ \<equiv> [CHR 0x22]"

abbreviation BQ :: string where
  "BQ \<equiv> [CHR 0x60]"

definition startswith :: "string \<Rightarrow> string \<Rightarrow> bool" where
  "startswith s p = (take (length p) s = p)"

definition endswith :: "string \<Rightarrow> string \<Rightarrow> bool" where
  "endswith s p = (length p \<le> length s \<and> drop (length s - length p) s = p)"

definition isupper :: "char \<Rightarrow> bool" where
  "isupper c = (CHR ''A'' \<le> c \<and> c \<le> CHR ''Z'')"

definition islower :: "char \<Rightarrow> bool" where
  "islower c = (CHR ''a'' \<le> c \<and> c \<le> CHR ''z'')"

definition isdigit :: "char \<Rightarrow> bool" where
  "isdigit c = (CHR ''0'' \<le> c \<and> c \<le> CHR ''9'')"

text \<open>White space as \<open>str.strip\<close> and the pattern \<open>\s\<close> see it, in the ASCII range:
  the characters 9 to 13, 28 to 31 and the blank.\<close>

definition isspace :: "char \<Rightarrow> bool" where
  "isspace c = (let n = (of_char c :: nat) in (9 \<le> n \<and> n \<le> 13) \<or> (28 \<le> n \<and> n \<le> 32))"

definition lower_char :: "char \<Rightarrow> char" where
  "lower_char c = (if isupper c then char_of (of_char c + (32::nat)) else c)"

definition upper_char :: "char \<Rightarrow> char" where
  "upper_char c = (if islower c then char_of (of_char c - (32::nat)) else c)"

definition lower :: "string \<Rightarrow> string" where
  "lower s = map lower_char s"

definition upper :: "string \<Rightarrow> string" where
  "upper s = map upper_char s"

definition lstrip :: "string \<Rightarrow> string" where
  "lstrip s = dropWhile isspace s"

definition rstrip :: "string \<Rightarrow> string" where
  "rstrip s = rev (dropWhile isspace (rev s))"

definition strip :: "string \<Rightarrow> string" where
  "strip s = rstrip (lstrip s)"

text \<open>\<open>s[-2:]\<close>: the last two characters, or all of a shorter string.\<close>

definition last2 :: "string \<Rightarrow> string" where
  "last2 s = drop (length s - 2) s"

text \<open>\<open>"\n".join(lines)\<close>\<close>

fun join_lines :: "string list \<Rightarrow> string" where
  "join_lines [] = []"
| "join_lines [l] = l"
| "join_lines (l # ls) = l @ NL @ join_lines ls"

text \<open>What a read in text mode makes of the bytes of a file (universal newlines): a
  carriage return with the newline after it, and a lone carriage return, become a
  newline.\<close>

fun universal_newlines :: "string \<Rightarrow> string" where
  "universal_newlines [] = []"
| "universal_newlines [c] = (if c = CHR 0x0D then NL else [c])"
| "universal_newlines (c # d # ds) =
     (if c = CHR 0x0D \<and> d = CHR 0x0A then CHR 0x0A # universal_newlines ds
      else if c = CHR 0x0D then CHR 0x0A # universal_newlines (d # ds)
      else c # universal_newlines (d # ds))"

text \<open>\<open>f.readlines()\<close>: the text cut after every newline, the newline kept.\<close>

fun readlines :: "string \<Rightarrow> string list" where
  "readlines [] = []"
| "readlines (c # cs) =
     (if c = CHR 0x0A then [c] # readlines cs
      else (case readlines cs of [] \<Rightarrow> [[c]] | l # ls \<Rightarrow> (c # l) # ls))"

subsection \<open>Paths, as \<open>posixpath\<close> computes them\<close>

definition path_join :: "string \<Rightarrow> string \<Rightarrow> string" where
  "path_join a b =
     (if startswith b ''/'' then b
      else if a = [] \<or> endswith a ''/'' then a @ b
      else a @ ''/'' @ b)"

definition basename :: "string \<Rightarrow> string" where
  "basename p = rev (takeWhile (\<lambda>c. c \<noteq> CHR ''/'') (rev p))"

definition dirname :: "string \<Rightarrow> string" where
  "dirname p =
     (let head = rev (dropWhile (\<lambda>c. c \<noteq> CHR ''/'') (rev p))
      in if head \<noteq> [] \<and> \<not> list_all (\<lambda>c. c = CHR ''/'') head
         then rev (dropWhile (\<lambda>c. c = CHR ''/'') (rev head))
         else head)"

definition URLBASE :: string where
  "URLBASE = ''http://determined.ai/schemas''"

definition ALL_PKGS :: "string list" where
  "ALL_PKGS = [''expconf'']"

subsection \<open>JSON values, errors, the world\<close>

text \<open>
  What \<open>json.loads\<close> returns. \<open>JNull\<close> is Python's \<open>None\<close>; an object is a \<open>dict\<close>,
  kept as the list of its items (a \<open>dict\<close> has no repeated key, and \<open>map_of\<close> reads
  it); a float is carried by its value.
\<close>

datatype json =
    JNull
  | JBool bool
  | JInt int
  | JFloat rat
  | JStr string
  | JArr "json list"
  | JObj "(string \<times> json) list"

text \<open>Python's truth value of a JSON value, as \<open>or\<close> tests it.\<close>

fun truthy :: "json \<Rightarrow> bool" where
  "truthy JNull = False"
| "truthy (JBool b) = b"
| "truthy (JInt n) = (n \<noteq> 0)"
| "truthy (JFloat q) = (q \<noteq> 0)"
| "truthy (JStr s) = (s \<noteq> [])"
| "truthy (JArr xs) = (xs \<noteq> [])"
| "truthy (JObj kvs) = (kvs \<noteq> [])"

definition py_or :: "json \<Rightarrow> json \<Rightarrow> json" where
  "py_or a b = (if truthy a then a else b)"

text \<open>\<open>d.get(k, dflt)\<close> on a \<open>dict\<close>.\<close>

definition dict_get :: "(string \<times> json) list \<Rightarrow> string \<Rightarrow> json \<Rightarrow> json" where
  "dict_get d k dflt = (case map_of d k of None \<Rightarrow> dflt | Some v \<Rightarrow> v)"

text \<open>One constructor for every \<open>raise\<close> of the program, and one for every exception of
  the interpreter that the modelled code can run into.\<close>

datatype error =
    NotValidJson string
  | DidNotFindStruct string string
  | UnsureHowToHandleLine nat string
  | FailedToFindStruct string string
  | NotValidSchemaTypeName string
  | FailedToFindSchema
  | MustBePointer string string
  | MustNotBeDoublePointer string string
  | NestedUnion string
  | MultipleTypes string "string set" "string list"
  | BothUnionAndFields string
  | PyKeyError string
  | PyTypeError
  | PyAttributeError
  | PyIndexError
  | PyUnboundLocalError
  | PyFileNotFoundError string
  | PyIsADirectoryError string
  | PyNotADirectoryError string
  | PyPermissionError string

record world =
  here :: string
  relpath :: "string \<Rightarrow> string \<Rightarrow> string"
  json_loads :: "string \<Rightarrow> json option"
  set_order :: "string list \<Rightarrow> string list"
  files :: "string \<Rightarrow> string option"
  listdir :: "string \<Rightarrow> string list option"
  denied :: "string \<Rightarrow> bool"
  os_walk :: "string \<Rightarrow> (string \<times> string list \<times> string list) list"
  stdout :: string
  written :: "string list"

text \<open>
  \<open>here\<close> is \<open>HERE\<close>, the directory of the script. \<open>json_loads\<close> is \<open>None\<close> where
  \<open>json.loads\<close> raises. \<open>set_order\<close> is the order in which the interpreter iterates
  over a set of strings, given as a list of its elements. \<open>files\<close> maps the path of a
  regular file to its bytes, \<open>listdir\<close> the path of a directory to its entries
  (\<open>None\<close>: there is no such directory), \<open>denied\<close> holds of the paths that the
  system refuses to open, \<open>os_walk\<close> maps a directory to the triples \<open>os.walk\<close>
  yields. \<open>stdout\<close> is what has been written to the standard output, \<open>written\<close>
  the paths opened for writing, the last one first.
\<close>

text \<open>\<open>open(path)\<close> and \<open>f.read()\<close>: the text of a regular file that may be opened.\<close>

definition open_read :: "world \<Rightarrow> string \<Rightarrow> error + string" where
  "open_read w path =
     (if listdir w path \<noteq> None then Inl (PyIsADirectoryError path)
      else (case files w path of
              None \<Rightarrow> Inl (PyFileNotFoundError path)
            | Some bytes \<Rightarrow>
                (if denied w path then Inl (PyPermissionError path)
                 else Inr (universal_newlines bytes))))"

subsection \<open>\<open>camel_to_snake\<close> and \<open>Schema\<close>\<close>

fun camel_loop :: "string \<Rightarrow> (char \<times> char \<times> char) list \<Rightarrow> string" where
  "camel_loop out [] = out"
| "camel_loop out ((c0, c1, c2) # rest) =
     (let out1 = (if islower c0 \<and> isupper c1 then out @ ''_'' else out);
          out2 = (if isupper c0 \<and> isupper c1 \<and> islower c2 then out1 @ ''_'' else out1)
      in camel_loop (out2 @ [lower_char c1]) rest)"

definition camel_to_snake :: "string \<Rightarrow> error + string" where
  "camel_to_snake name =
     (if name = [] then Inl PyIndexError
      else Inr (camel_loop [lower_char (hd name)]
                  (zip (butlast (butlast name)) (zip (butlast (tl name)) (drop 2 name)))
                @ [lower_char (last name)]))"

record Schema =
  schema_url :: string
  schema_text :: string
  schema_json :: json
  golang_title :: string
  python_title :: string

definition version :: "string \<Rightarrow> string" where
  "version u = basename (dirname u)"

definition Schema_init :: "world \<Rightarrow> string \<Rightarrow> string \<Rightarrow> error + Schema" where
  "Schema_init w u t =
     (case json_loads w t of
        None \<Rightarrow> Inl (NotValidJson u)
      | Some j \<Rightarrow>
          (case j of
             JObj kvs \<Rightarrow>
               (case map_of kvs ''title'' of
                  None \<Rightarrow> Inl (PyKeyError ''title'')
                | Some (JStr title) \<Rightarrow>
                    (let g = title @ upper (version u)
                     in case camel_to_snake g of
                          Inl e \<Rightarrow> Inl e
                        | Inr p \<Rightarrow>
                            Inr \<lparr>schema_url = u, schema_text = t, schema_json = j,
                                 golang_title = g, python_title = p\<rparr>)
                | Some _ \<Rightarrow> Inl PyTypeError)
           | _ \<Rightarrow> Inl PyTypeError))"

subsection \<open>\<open>get_defaulted_type\<close> and \<open>go_getters\<close>\<close>

definition get_defaulted_type ::
  "Schema \<Rightarrow> string \<Rightarrow> string \<Rightarrow> error + (string \<times> json \<times> json)" where
  "get_defaulted_type sch tag ty =
     (case schema_json sch of
        JObj kvs \<Rightarrow>
          (case map_of kvs ''properties'' of
             None \<Rightarrow> Inl (PyKeyError ''properties'')
           | Some (JObj props) \<Rightarrow>
               (let prop0 = dict_get props tag (JObj []);
                    prop = (if prop0 = JBool True then JObj [] else prop0)
                in case prop of
                     JObj pkvs \<Rightarrow>
                       (let dflt = dict_get pkvs ''default'' JNull;
                            required = py_or (dict_get kvs ''required'' (JArr []))
                                             (dict_get kvs ''eventuallyRequired'' (JArr []))
                        in if dflt \<noteq> JNull then
                             (if \<not> startswith ty ''*'' then Inl (MustBePointer tag ty)
                              else if startswith ty ''**'' then Inl (MustNotBeDoublePointer tag ty)
                              else Inr (tl ty, dflt, required))
                           else Inr (ty, dflt, required))
                   | _ \<Rightarrow> Inl PyAttributeError)
           | Some _ \<Rightarrow> Inl PyAttributeError)
      | _ \<Rightarrow> Inl PyTypeError)"

text \<open>The lines of one getter: the transparent form for a field with no default, the
  dereferencing form for a defaulted field.\<close>

definition getter_lines ::
  "string \<Rightarrow> string \<Rightarrow> string \<Rightarrow> string \<Rightarrow> string \<Rightarrow> json \<Rightarrow> string list" where
  "getter_lines x struct field ty defaulted_type dflt =
     (if dflt = JNull then
        [''func ('' @ x @ '' '' @ struct @ '') Get'' @ field @ ''() '' @ ty @ '' {'',
         TAB @ ''return '' @ x @ ''.'' @ field,
         ''}'',
         '''']
      else
        [''func ('' @ x @ '' '' @ struct @ '') Get'' @ field @ ''() '' @ defaulted_type @ '' {'',
         TAB @ ''if '' @ x @ ''.'' @ field @ '' == nil {'',
         TAB @ TAB @ ''panic('' @ DQ @ ''You must call WithDefaults on '' @ struct
           @ '' before .Get'' @ field @ DQ @ '')'',
         TAB @ ''}'',
         TAB @ ''return *'' @ x @ ''.'' @ field,
         ''}'',
         ''''])"

fun go_getters_loop ::
  "string \<Rightarrow> string \<Rightarrow> Schema \<Rightarrow> (string \<times> string \<times> string) list \<Rightarrow> error + string list" where
  "go_getters_loop x struct sch [] = Inr []"
| "go_getters_loop x struct sch ((field, ty, tag) # rest) =
     (case get_defaulted_type sch tag ty of
        Inl e \<Rightarrow> Inl e
      | Inr (defaulted_type, dflt, required) \<Rightarrow>
          (case go_getters_loop x struct sch rest of
             Inl e \<Rightarrow> Inl e
           | Inr ls \<Rightarrow> Inr (getter_lines x struct field ty defaulted_type dflt @ ls)))"

definition go_getters ::
  "string \<Rightarrow> Schema \<Rightarrow> (string \<times> string \<times> string) list \<Rightarrow> error + string list" where
  "go_getters struct sch spec =
     (if length spec < 1 then Inr []
      else if struct = [] then Inl PyIndexError
      else go_getters_loop [lower_char (hd struct)] struct sch spec)"

subsection \<open>\<open>next_struct_name\<close> and \<open>find_struct\<close>\<close>

type_synonym FieldSpec = "string \<times> string \<times> string"

type_synonym UnionSpec = "string \<times> string"

text \<open>
  \<open>re.match("type ([\S]+) struct", line)\<close>. The group is a run of characters that are
  not white space and a blank follows it, so it is the whole run after \<open>type \<close>.
\<close>

definition match_type_struct :: "string \<Rightarrow> string option" where
  "match_type_struct line =
     (if startswith line ''type '' then
        (let r = drop 5 line;
             name = takeWhile (\<lambda>c. \<not> isspace c) r;
             rest = dropWhile (\<lambda>c. \<not> isspace c) r
         in if name \<noteq> [] \<and> startswith rest '' struct'' then Some name else None)
      else None)"

fun next_struct_loop :: "int \<Rightarrow> nat \<Rightarrow> string list \<Rightarrow> string option" where
  "next_struct_loop start lineno [] = None"
| "next_struct_loop start lineno (line # rest) =
     (if int lineno \<le> start then next_struct_loop start (Suc lineno) rest
      else (case match_type_struct line of
              Some name \<Rightarrow> Some name
            | None \<Rightarrow> next_struct_loop start (Suc lineno) rest))"

text \<open>The message of the final \<open>raise\<close> formats the loop variable \<open>line\<close>, which is
  unbound when the file has no line at all.\<close>

definition next_struct_name :: "world \<Rightarrow> string \<Rightarrow> int \<Rightarrow> error + string" where
  "next_struct_name w file start =
     (case open_read w file of
        Inl e \<Rightarrow> Inl e
      | Inr t \<Rightarrow>
          (case next_struct_loop start 0 (readlines t) of
             Some name \<Rightarrow> Inr name
           | None \<Rightarrow>
               (if readlines t = [] then Inl PyUnboundLocalError
                else Inl (DidNotFindStruct file (last (readlines t))))))"

text \<open>
  The common start \<open>\t([\S]+)\s+([\S]+)\s+\<close> of the two field patterns: a tab, a run
  of characters that are not white space (the field), white space, a second run (the
  type), white space. Each run is followed by a character of the other kind, so the
  match is the one with whole runs. The result carries what follows.
\<close>

definition field_prefix :: "string \<Rightarrow> (string \<times> string \<times> string) option" where
  "field_prefix line =
     (case line of
        [] \<Rightarrow> None
      | c # r0 \<Rightarrow>
          (if c \<noteq> CHR 0x09 then None
           else
             (let field = takeWhile (\<lambda>c. \<not> isspace c) r0;
                  r1 = dropWhile (\<lambda>c. \<not> isspace c) r0;
                  ws1 = takeWhile isspace r1;
                  r2 = dropWhile isspace r1;
                  ty = takeWhile (\<lambda>c. \<not> isspace c) r2;
                  r3 = dropWhile (\<lambda>c. \<not> isspace c) r2;
                  ws2 = takeWhile isspace r3;
                  r4 = dropWhile isspace r3
              in if field = [] \<or> ws1 = [] \<or> ty = [] \<or> ws2 = [] then None
                 else Some (field, ty, r4))))"

text \<open>\<open>re.match("\t([\S]+)\s+([\S]+)\s+`union.*", line)\<close>\<close>

definition match_union :: "string \<Rightarrow> UnionSpec option" where
  "match_union line =
     (case field_prefix line of
        None \<Rightarrow> None
      | Some (field, ty, rest) \<Rightarrow>
          (if startswith rest (BQ @ ''union'') then Some (field, ty) else None))"

text \<open>\<open>re.match('\t([\S]+)\s+([\S]+)\s+`json:"([^,"]+)', line)\<close>: the tag is the longest
  run, not empty, of characters other than the comma and the double quote.\<close>

definition match_json :: "string \<Rightarrow> FieldSpec option" where
  "match_json line =
     (case field_prefix line of
        None \<Rightarrow> None
      | Some (field, ty, rest) \<Rightarrow>
          (if startswith rest (BQ @ ''json:'' @ DQ) then
             (let tag = takeWhile (\<lambda>c. c \<noteq> CHR '','' \<and> c \<noteq> CHR 0x22) (drop 7 rest)
              in if tag = [] then None else Some (field, ty, tag))
           else None))"

text \<open>What \<open>find_struct\<close> makes of a line of the body, its tests in their order.\<close>

datatype line_kind =
    Closing
  | Skipped
  | UnionField UnionSpec
  | PlainField FieldSpec
  | Unclassified

definition classify :: "string \<Rightarrow> line_kind" where
  "classify line =
     (if strip line = ''}'' then Closing
      else if strip line = [] then Skipped
      else if startswith line (TAB @ ''//'') then Skipped
      else (case match_union line of
              Some u \<Rightarrow> UnionField u
            | None \<Rightarrow> (case match_json line of
                         Some f \<Rightarrow> PlainField f
                       | None \<Rightarrow> Unclassified)))"

text \<open>The fields a run of body lines contributes, in the order of the lines.\<close>

definition plain_fields_of :: "string list \<Rightarrow> FieldSpec list" where
  "plain_fields_of body =
     concat (map (\<lambda>l. case classify l of PlainField f \<Rightarrow> [f] | _ \<Rightarrow> []) body)"

definition union_fields_of :: "string list \<Rightarrow> UnionSpec list" where
  "union_fields_of body =
     concat (map (\<lambda>l. case classify l of UnionField u \<Rightarrow> [u] | _ \<Rightarrow> []) body)"

datatype scan_state = Pre | Fields

fun find_struct_loop ::
  "string \<Rightarrow> string \<Rightarrow> scan_state \<Rightarrow> FieldSpec list \<Rightarrow> UnionSpec list \<Rightarrow> nat \<Rightarrow> string list
   \<Rightarrow> error + (FieldSpec list \<times> UnionSpec list)" where
  "find_struct_loop file struct_name st field_spec union_spec lineno [] =
     Inl (FailedToFindStruct struct_name file)"
| "find_struct_loop file struct_name Pre field_spec union_spec lineno (line # rest) =
     (if startswith line (''type '' @ struct_name @ '' struct'')
      then find_struct_loop file struct_name Fields field_spec union_spec (Suc lineno) rest
      else find_struct_loop file struct_name Pre field_spec union_spec (Suc lineno) rest)"
| "find_struct_loop file struct_name Fields field_spec union_spec lineno (line # rest) =
     (if strip line = ''}'' then Inr (field_spec, union_spec)
      else if strip line = [] then
        find_struct_loop file struct_name Fields field_spec union_spec (Suc lineno) rest
      else if startswith line (TAB @ ''//'') then
        find_struct_loop file struct_name Fields field_spec union_spec (Suc lineno) rest
      else
        (case match_union line of
           Some u \<Rightarrow>
             find_struct_loop file struct_name Fields field_spec (union_spec @ [u])
               (Suc lineno) rest
         | None \<Rightarrow>
             (case match_json line of
                Some f \<Rightarrow>
                  find_struct_loop file struct_name Fields (field_spec @ [f]) union_spec
                    (Suc lineno) rest
              | None \<Rightarrow> Inl (UnsureHowToHandleLine lineno (rstrip line)))))"

definition find_struct ::
  "world \<Rightarrow> string \<Rightarrow> string \<Rightarrow> error + (FieldSpec list \<times> UnionSpec list)" where
  "find_struct w file struct_name =
     (case open_read w file of
        Inl e \<Rightarrow> Inl e
      | Inr t \<Rightarrow> find_struct_loop file struct_name Pre [] [] 0 (readlines t))"

subsection \<open>\<open>find_schema\<close>\<close>

text \<open>\<open>re.match(".*V[0-9]+", struct)\<close>: a \<open>V\<close> and a digit after it, reached from the
  start of the string over characters other than the newline.\<close>

fun has_version :: "string \<Rightarrow> bool" where
  "has_version [] = False"
| "has_version (c # cs) =
     ((c = CHR ''V'' \<and> cs \<noteq> [] \<and> isdigit (hd cs)) \<or> (c \<noteq> CHR 0x0A \<and> has_version cs))"

fun find_schema_loop :: "world \<Rightarrow> string \<Rightarrow> string \<Rightarrow> string list \<Rightarrow> error + Schema" where
  "find_schema_loop w dir struct [] = Inl FailedToFindSchema"
| "find_schema_loop w dir struct (file # rest) =
     (if \<not> endswith file ''.json'' then find_schema_loop w dir struct rest
      else
        (let path = path_join dir file;
             urlend = relpath w path (here w);
             u = path_join URLBASE urlend
         in case open_read w path of
              Inl e \<Rightarrow> Inl e
            | Inr t \<Rightarrow>
                (case Schema_init w u t of
                   Inl e \<Rightarrow> Inl e
                 | Inr sch \<Rightarrow>
                     (if golang_title sch \<noteq> struct then find_schema_loop w dir struct rest
                      else Inr sch))))"

definition find_schema :: "world \<Rightarrow> string \<Rightarrow> string \<Rightarrow> error + Schema" where
  "find_schema w package struct =
     (if \<not> has_version struct then Inl (NotValidSchemaTypeName struct)
      else
        (let ver = lower (last2 struct);
             dir = path_join (path_join (here w) package) ver
         in case listdir w dir of
              None \<Rightarrow> Inl (PyFileNotFoundError dir)
            | Some entries \<Rightarrow> find_schema_loop w dir struct entries))"

subsection \<open>\<open>get_union_common_members\<close>\<close>

text \<open>
  The \<open>dict\<close> \<open>members\<close> of one union member type is the list of its items;
  \<open>members[field] = type\<close> is \<open>AList.update\<close>, which overwrites the value of a key the
  list has and appends the item otherwise.
\<close>

type_synonym members = "(string \<times> string) list"

fun members_loop :: "Schema \<Rightarrow> members \<Rightarrow> FieldSpec list \<Rightarrow> error + members" where
  "members_loop sch mem [] = Inr mem"
| "members_loop sch mem ((field, ty, tag) # rest) =
     (case get_defaulted_type sch tag ty of
        Inl e \<Rightarrow> Inl e
      | Inr (t, _, _) \<Rightarrow> members_loop sch (AList.update field t mem) rest)"

text \<open>The body of the loop over \<open>union_types\<close>.\<close>

definition struct_members :: "world \<Rightarrow> string \<Rightarrow> string \<Rightarrow> string \<Rightarrow> error + members" where
  "struct_members w file package struct =
     (case find_schema w package struct of
        Inl e \<Rightarrow> Inl e
      | Inr sch \<Rightarrow>
          (case find_struct w file struct of
             Inl e \<Rightarrow> Inl e
           | Inr (spec, union_fields) \<Rightarrow>
               (if length union_fields > 0 then Inl (NestedUnion struct)
                else members_loop sch [] spec)))"

fun per_struct_members ::
  "world \<Rightarrow> string \<Rightarrow> string \<Rightarrow> string list \<Rightarrow> error + members list" where
  "per_struct_members w file package [] = Inr []"
| "per_struct_members w file package (struct # rest) =
     (case struct_members w file package struct of
        Inl e \<Rightarrow> Inl e
      | Inr m \<Rightarrow>
          (case per_struct_members w file package rest of
             Inl e \<Rightarrow> Inl e
           | Inr ms \<Rightarrow> Inr (m # ms)))"

text \<open>A set of field names is the list of its elements, without repetition; the
  intersection with the keys of one more \<open>dict\<close> keeps the elements that are keys.\<close>

definition intersection :: "string list \<Rightarrow> members \<Rightarrow> string list" where
  "intersection common m = filter (\<lambda>f. f \<in> set (map fst m)) common"

text \<open>\<open>members[field]\<close>\<close>

definition getitem :: "members \<Rightarrow> string \<Rightarrow> error + string" where
  "getitem m field =
     (case map_of m field of None \<Rightarrow> Inl (PyKeyError field) | Some t \<Rightarrow> Inr t)"

text \<open>\<open>{members[field] for members in per_struct_members}\<close>, as the list of the values
  read.\<close>

fun field_types :: "string \<Rightarrow> members list \<Rightarrow> error + string list" where
  "field_types field [] = Inr []"
| "field_types field (m # ms) =
     (case getitem m field of
        Inl e \<Rightarrow> Inl e
      | Inr t \<Rightarrow>
          (case field_types field ms of
             Inl e \<Rightarrow> Inl e
           | Inr ts \<Rightarrow> Inr (t # ts)))"

fun validate_types :: "string list \<Rightarrow> members list \<Rightarrow> string list \<Rightarrow> error + unit" where
  "validate_types union_types psm [] = Inr ()"
| "validate_types union_types psm (field # rest) =
     (case field_types field psm of
        Inl e \<Rightarrow> Inl e
      | Inr ts \<Rightarrow>
          (if length (remdups ts) \<noteq> 1
           then Inl (MultipleTypes field (set ts) union_types)
           else validate_types union_types psm rest))"

text \<open>\<open>{field: per_struct_members[0][field] for field in common_fields}\<close>\<close>

fun common_items :: "members \<Rightarrow> string list \<Rightarrow> error + members" where
  "common_items m0 [] = Inr []"
| "common_items m0 (field # rest) =
     (case getitem m0 field of
        Inl e \<Rightarrow> Inl e
      | Inr t \<Rightarrow>
          (case common_items m0 rest of
             Inl e \<Rightarrow> Inl e
           | Inr kvs \<Rightarrow> Inr ((field, t) # kvs)))"

definition get_union_common_members ::
  "world \<Rightarrow> string \<Rightarrow> string \<Rightarrow> string list \<Rightarrow> error + (string \<times> string) list" where
  "get_union_common_members w file package union_types =
     (case per_struct_members w file package union_types of
        Inl e \<Rightarrow> Inl e
      | Inr psm \<Rightarrow>
          (case psm of
             [] \<Rightarrow> Inl PyIndexError
           | m0 # ms \<Rightarrow>
               (let common_fields = foldl intersection (map fst m0) ms
                in case validate_types union_types psm (set_order w common_fields) of
                     Inl e \<Rightarrow> Inl e
                   | Inr _ \<Rightarrow>
                       (case common_items m0 (set_order w common_fields) of
                          Inl e \<Rightarrow> Inl e
                        | Inr kvs \<Rightarrow> Inr (sort kvs)))))"

subsection \<open>The emitters\<close>

text \<open>The body of \<open>GetUnionMember\<close>: one test for every union field.\<close>

definition union_member_lines :: "string \<Rightarrow> string \<Rightarrow> UnionSpec list \<Rightarrow> string list" where
  "union_member_lines x struct union_spec =
     [''func ('' @ x @ '' '' @ struct @ '') GetUnionMember() interface{} {'']
     @ concat (map (\<lambda>(field, _).
         [TAB @ ''if '' @ x @ ''.'' @ field @ '' != nil {'',
          TAB @ TAB @ ''return nil'',
          TAB @ ''}'']) union_spec)
     @ [TAB @ ''panic('' @ DQ @ ''no union member defined'' @ DQ @ '')'',
        ''}'',
        []]"

definition common_getter_lines ::
  "string \<Rightarrow> string \<Rightarrow> UnionSpec list \<Rightarrow> string \<times> string \<Rightarrow> string list" where
  "common_getter_lines x struct union_spec cm =
     (case cm of (common_field, ty) \<Rightarrow>
        [''func ('' @ x @ '' '' @ struct @ '') Get'' @ common_field @ ''() '' @ ty @ '' {'']
        @ concat (map (\<lambda>(field, _).
            [TAB @ ''if '' @ x @ ''.'' @ field @ '' != nil {'',
             TAB @ TAB @ ''return '' @ x @ ''.'' @ field @ ''.Get'' @ common_field @ ''()'',
             TAB @ ''}'']) union_spec)
        @ [TAB @ ''panic('' @ DQ @ ''no union member defined'' @ DQ @ '')'',
           ''}'',
           []])"

definition go_unions ::
  "world \<Rightarrow> string \<Rightarrow> string \<Rightarrow> string \<Rightarrow> Schema \<Rightarrow> UnionSpec list \<Rightarrow> error + string list" where
  "go_unions w struct package file sch union_spec =
     (if length union_spec < 1 then Inr []
      else if struct = [] then Inl PyIndexError
      else
        (let x = [lower_char (hd struct)];
             union_types = map (\<lambda>(_, ty). dropWhile (\<lambda>c. c = CHR ''*'') ty) union_spec
         in case get_union_common_members w file package union_types of
              Inl e \<Rightarrow> Inl e
            | Inr common_members \<Rightarrow>
                Inr (union_member_lines x struct union_spec
                     @ concat (map (common_getter_lines x struct union_spec) common_members))))"

definition go_helpers :: "string \<Rightarrow> error + string list" where
  "go_helpers struct =
     (if struct = [] then Inl PyIndexError
      else
        (let x = [lower_char (hd struct)]
         in Inr
           [''func ('' @ x @ '' '' @ struct @ '') WithDefaults() '' @ struct @ '' {'',
            TAB @ ''return schemas.WithDefaults('' @ x @ '').('' @ struct @ '')'',
            ''}'',
            [],
            ''func ('' @ x @ '' '' @ struct @ '') Merge(other '' @ struct @ '') '' @ struct @ '' {'',
            TAB @ ''return schemas.Merge('' @ x @ '', other).('' @ struct @ '')'',
            ''}'']))"

definition go_schema_interface :: "string \<Rightarrow> string \<Rightarrow> error + string list" where
  "go_schema_interface struct u =
     (if struct = [] then Inl PyIndexError
      else
        (let x = [lower_char (hd struct)]
         in Inr
           [[],
            ''func ('' @ x @ '' '' @ struct @ '') ParsedSchema() interface{} {'',
            TAB @ ''return schemas.Parsed'' @ struct @ ''()'',
            ''}'',
            [],
            ''func ('' @ x @ '' '' @ struct @ '') SanityValidator() *jsonschema.Schema {'',
            TAB @ ''return schemas.GetSanityValidator('' @ DQ @ u @ DQ @ '')'',
            ''}'',
            [],
            ''func ('' @ x @ '' '' @ struct @ '') CompletenessValidator() *jsonschema.Schema {'',
            TAB @ ''return schemas.GetCompletenessValidator('' @ DQ @ u @ DQ @ '')'',
            ''}'']))"

definition gen_go_struct ::
  "world \<Rightarrow> string \<Rightarrow> string \<Rightarrow> int \<Rightarrow> string list \<Rightarrow> error + (string \<times> string list)" where
  "gen_go_struct w package file line imports =
     (case next_struct_name w file line of
        Inl e \<Rightarrow> Inl e
      | Inr struct \<Rightarrow>
     (case find_struct w file struct of
        Inl e \<Rightarrow> Inl e
      | Inr (field_spec, union_spec) \<Rightarrow>
     (if length field_spec \<noteq> 0 \<and> length union_spec \<noteq> 0 then Inl (BothUnionAndFields struct)
      else
     (case find_schema w package struct of
        Inl e \<Rightarrow> Inl e
      | Inr sch \<Rightarrow>
     (let lines0 =
            [''// Code generated by gen.py. DO NOT EDIT.'',
             [],
             ''package '' @ package,
             [],
             ''import ('',
             TAB @ DQ @ ''github.com/santhosh-tekuri/jsonschema/v2'' @ DQ]
            @ map (\<lambda>imp. TAB @ imp) imports
            @ [[],
               TAB @ DQ @ ''github.com/determined-ai/determined/master/pkg/schemas'' @ DQ,
               '')'',
               []]
      in
     (case go_getters struct sch field_spec of
        Inl e \<Rightarrow> Inl e
      | Inr l1 \<Rightarrow>
     (case go_unions w struct package file sch union_spec of
        Inl e \<Rightarrow> Inl e
      | Inr l2 \<Rightarrow>
     (case go_helpers struct of
        Inl e \<Rightarrow> Inl e
      | Inr l3 \<Rightarrow>
     (case go_schema_interface struct (schema_url sch) of
        Inl e \<Rightarrow> Inl e
      | Inr l4 \<Rightarrow>
     (case camel_to_snake struct of
        Inl e \<Rightarrow> Inl e
      | Inr snake \<Rightarrow>
          Inr (''zgen_'' @ snake @ ''.go'', lines0 @ l1 @ l2 @ l3 @ l4)))))))))))"

subsection \<open>The aggregate module\<close>

text \<open>The list \<open>out\<close> of \<open>list_files\<close>, before it is sorted: the files that \<open>os.walk\<close>
  yields, in its order.\<close>

definition walk_out :: "world \<Rightarrow> string \<Rightarrow> string list" where
  "walk_out w package =
     concat (map (\<lambda>(dirpath, _, fs).
                map (path_join dirpath) (filter (\<lambda>f. endswith f ''.json'') fs))
             (os_walk w (path_join (here w) package)))"

definition list_files :: "world \<Rightarrow> string \<Rightarrow> string list" where
  "list_files w package = sort (walk_out w package)"

text \<open>The body of the loop of \<open>read_schemas\<close>.\<close>

definition read_schema :: "world \<Rightarrow> string \<Rightarrow> error + Schema" where
  "read_schema w file =
     (let urlend = relpath w file (here w);
          u = path_join URLBASE urlend
      in case open_read w file of
           Inl e \<Rightarrow> Inl e
         | Inr t \<Rightarrow> Schema_init w u t)"

fun read_schemas_loop :: "world \<Rightarrow> string list \<Rightarrow> error + Schema list" where
  "read_schemas_loop w [] = Inr []"
| "read_schemas_loop w (file # rest) =
     (case read_schema w file of
        Inl e \<Rightarrow> Inl e
      | Inr sch \<Rightarrow>
          (case read_schemas_loop w rest of
             Inl e \<Rightarrow> Inl e
           | Inr schs \<Rightarrow> Inr (sch # schs)))"

text \<open>\<open>schemas.sort(key=lambda s: s.url)\<close> is a stable sort, as \<open>sort_key\<close> is.\<close>

definition read_schemas :: "world \<Rightarrow> string list \<Rightarrow> error + Schema list" where
  "read_schemas w fs =
     (case read_schemas_loop w fs of
        Inl e \<Rightarrow> Inl e
      | Inr schs \<Rightarrow> Inr (sort_key schema_url schs))"

definition gen_go_schemas_package :: "Schema list \<Rightarrow> string list" where
  "gen_go_schemas_package schemas =
     [''// Code generated by gen.py. DO NOT EDIT.'',
      [],
      ''package schemas'',
      [],
      ''import ('',
      TAB @ DQ @ ''encoding/json'' @ DQ,
      '')'',
      [],
      ''var ('']
     @ map (\<lambda>sch. TAB @ ''text'' @ golang_title sch @ '' = []byte('' @ BQ @ schema_text sch
                    @ BQ @ '')'') schemas
     @ concat (map (\<lambda>sch. [TAB @ ''schema'' @ golang_title sch @ '' interface{}'', []]) schemas)
     @ [TAB @ ''cachedSchemaMap map[string]interface{}'',
        [],
        TAB @ ''cachedSchemaBytesMap map[string][]byte'',
        '')'',
        []]
     @ concat (map (\<lambda>sch.
         [''func Parsed'' @ golang_title sch @ ''() interface{} {'',
          TAB @ ''if schema'' @ golang_title sch @ '' != nil {'',
          TAB @ TAB @ ''return schema'' @ golang_title sch,
          TAB @ ''}'',
          TAB @ ''err := json.Unmarshal(text'' @ golang_title sch @ '', &schema''
            @ golang_title sch @ '')'',
          TAB @ ''if err != nil {'',
          TAB @ TAB @ ''panic('' @ DQ @ ''invalid embedded json for '' @ golang_title sch
            @ DQ @ '')'',
          TAB @ ''}'',
          TAB @ ''return schema'' @ golang_title sch,
          ''}'',
          []]) schemas)
     @ [''func schemaBytesMap() map[string][]byte {'',
        TAB @ ''if cachedSchemaBytesMap != nil {'',
        TAB @ TAB @ ''return cachedSchemaBytesMap'',
        TAB @ ''}'',
        TAB @ ''var url string'',
        TAB @ ''cachedSchemaBytesMap = map[string][]byte{}'']
     @ concat (map (\<lambda>sch.
         [TAB @ ''url = '' @ DQ @ schema_url sch @ DQ,
          TAB @ ''cachedSchemaBytesMap[url] = text'' @ golang_title sch]) schemas)
     @ [TAB @ ''return cachedSchemaBytesMap'',
        ''}'']"

subsection \<open>Writing the output\<close>

text \<open>\<open>os.path.exists(path)\<close>: there is a file or a directory.\<close>

definition path_exists :: "world \<Rightarrow> string \<Rightarrow> bool" where
  "path_exists w path = (files w path \<noteq> None \<or> listdir w path \<noteq> None)"

text \<open>
  The exception of \<open>open(path, "w")\<close>, if there is one: a component of the path is a
  regular file, the directory of the path is missing (a path with no directory part
  is in the current directory, which is there), the path is a directory, or the
  system refuses.
\<close>

definition open_write_error :: "world \<Rightarrow> string \<Rightarrow> error option" where
  "open_write_error w path =
     (let parent = dirname path
      in if parent \<noteq> [] \<and> files w parent \<noteq> None then Some (PyNotADirectoryError path)
         else if parent \<noteq> [] \<and> listdir w parent = None then Some (PyFileNotFoundError path)
         else if listdir w path \<noteq> None then Some (PyIsADirectoryError path)
         else if denied w path then Some (PyPermissionError path)
         else None)"

text \<open>\<open>with open(output, "w") as f: f.write(text)\<close>: the file holds the text, byte for
  byte, and the opening is recorded in \<open>written\<close>.\<close>

definition write_text :: "world \<Rightarrow> string \<Rightarrow> string \<Rightarrow> error + world" where
  "write_text w path t =
     (case open_write_error w path of
        Some e \<Rightarrow> Inl e
      | None \<Rightarrow> Inr (w\<lparr>files := (files w)(path \<mapsto> t), written := path # written w\<rparr>))"

text \<open>
  \<open>maybe_write_output\<close>: with no destination the text goes to the standard output.
  A destination that exists is read, in text mode, and the function returns when what
  is read is the text; in every other case the destination is opened for writing.
\<close>

definition maybe_write_output :: "world \<Rightarrow> string list \<Rightarrow> string option \<Rightarrow> error + world" where
  "maybe_write_output w lines output =
     (let t = join_lines lines @ NL
      in case output of
           None \<Rightarrow> Inr (w\<lparr>stdout := stdout w @ t\<rparr>)
         | Some path \<Rightarrow>
             (if path_exists w path then
                (case open_read w path of
                   Inl e \<Rightarrow> Inl e
                 | Inr old \<Rightarrow> (if old = t then Inr w else write_text w path t))
              else write_text w path t))"

definition go_root_main :: "world \<Rightarrow> string option \<Rightarrow> error + world" where
  "go_root_main w output =
     (case read_schemas w (concat (map (list_files w) ALL_PKGS)) of
        Inl e \<Rightarrow> Inl e
      | Inr schemas \<Rightarrow> maybe_write_output w (gen_go_schemas_package schemas) output)"

text \<open>\<open>imports.split(",")\<close>\<close>

fun split_comma :: "string \<Rightarrow> string list" where
  "split_comma [] = [[]]"
| "split_comma (c # cs) =
     (if c = CHR '','' then [] # split_comma cs
      else (case split_comma cs of [] \<Rightarrow> [[c]] | p # ps \<Rightarrow> (c # p) # ps))"

definition fmt_import :: "string \<Rightarrow> string" where
  "fmt_import imp =
     (if CHR '':'' \<in> set imp
      then concat (map (\<lambda>c. if c = CHR '':'' then '' '' @ DQ else [c]) imp) @ DQ
      else DQ @ imp @ DQ)"

definition go_struct_main ::
  "world \<Rightarrow> string \<Rightarrow> string \<Rightarrow> int \<Rightarrow> string option \<Rightarrow> error + world" where
  "go_struct_main w package file line imports =
     (let imports_list =
            (case imports of
               None \<Rightarrow> []
             | Some s \<Rightarrow> map fmt_import (filter (\<lambda>i. i \<noteq> []) (split_comma s)))
      in case gen_go_struct w package file line imports_list of
           Inl e \<Rightarrow> Inl e
         | Inr (output, lines) \<Rightarrow> maybe_write_output w lines (Some output))"

subsection \<open>Example inputs\<close>

text \<open>The schema \<open>Widget\<close>: one property \<open>name\<close> with a given default, an empty
  \<open>required\<close> list and an \<open>eventuallyRequired\<close> list.\<close>

definition widget_property :: "json \<Rightarrow> (string \<times> json) list" where
  "widget_property dflt = [(''type'', JStr ''string''), (''default'', dflt)]"

definition widget_properties :: "json \<Rightarrow> (string \<times> json) list" where
  "widget_properties dflt = [(''name'', JObj (widget_property dflt))]"

definition widget_items :: "json \<Rightarrow> (string \<times> json) list" where
  "widget_items dflt =
     [(''title'', JStr ''Widget''),
      (''properties'', JObj (widget_properties dflt)),
      (''required'', JArr []),
      (''eventuallyRequired'', JArr [JStr ''name''])]"

definition widget_schema :: "json \<Rightarrow> Schema" where
  "widget_schema dflt =
     \<lparr>schema_url = ''http://determined.ai/schemas/expconf/v1/widget.json'',
      schema_text = ''{}'',
      schema_json = JObj (widget_items dflt),
      golang_title = ''WidgetV1'',
      python_title = ''widget_v1''\<rparr>"

text \<open>
  A package \<open>expconf\<close> with the schemas \<open>A\<close>, \<open>B\<close>, \<open>D\<close> and \<open>U\<close> under \<open>v1\<close> and a
  schema titled \<open>FooV1\<close> under a directory \<open>ab\<close>, and a Go file: the structs \<open>AV1\<close>
  and \<open>BV1\<close>, the union \<open>UV1\<close> of the two, a struct \<open>MV1\<close> with a union field and
  a plain field, and a struct \<open>DV1\<close> whose field \<open>Name\<close> is an \<open>int\<close>.
\<close>

definition go_text :: string where
  "go_text = concat (map (\<lambda>l. l @ NL)
    [''package expconf'',
     [],
     ''type AV1 struct {'',
     TAB @ ''Name *string '' @ BQ @ ''json:'' @ DQ @ ''name'' @ DQ @ BQ,
     TAB @ ''X int '' @ BQ @ ''json:'' @ DQ @ ''x,omitempty'' @ DQ @ BQ,
     ''}'',
     [],
     ''type BV1 struct {'',
     TAB @ ''// the name'',
     TAB @ ''Name *string '' @ BQ @ ''json:'' @ DQ @ ''name'' @ DQ @ BQ,
     [],
     TAB @ ''Y int '' @ BQ @ ''json:'' @ DQ @ ''y'' @ DQ @ BQ,
     ''}'',
     [],
     ''//go:generate ../gen.sh'',
     ''type UV1 struct {'',
     TAB @ ''A *AV1 '' @ BQ @ ''union:'' @ DQ @ ''type,a'' @ DQ @ '' json:'' @ DQ @ ''-'' @ DQ @ BQ,
     TAB @ ''B *BV1 '' @ BQ @ ''union:'' @ DQ @ ''type,b'' @ DQ @ '' json:'' @ DQ @ ''-'' @ DQ @ BQ,
     ''}'',
     [],
     ''//go:generate ../gen.sh'',
     ''type MV1 struct {'',
     TAB @ ''A *AV1 '' @ BQ @ ''union:'' @ DQ @ ''type,a'' @ DQ @ '' json:'' @ DQ @ ''-'' @ DQ @ BQ,
     TAB @ ''Name string '' @ BQ @ ''json:'' @ DQ @ ''name'' @ DQ @ BQ,
     ''}'',
     [],
     ''type DV1 struct {'',
     TAB @ ''Name int '' @ BQ @ ''json:'' @ DQ @ ''name'' @ DQ @ BQ,
     ''}''])"

text \<open>A Go file whose struct has a comment line indented with blanks.\<close>

definition bad_go_text :: string where
  "bad_go_text = concat (map (\<lambda>l. l @ NL)
    [''type CV1 struct {'',
     ''  // the name'',
     TAB @ ''Name string '' @ BQ @ ''json:'' @ DQ @ ''name'' @ DQ @ BQ,
     ''}''])"

definition a_json :: json where
  "a_json = JObj [(''title'', JStr ''A''),
                  (''properties'', JObj [(''name'', JObj [(''default'', JStr ''anon'')]),
                                         (''x'', JBool True)])]"

definition b_json :: json where
  "b_json = JObj [(''title'', JStr ''B''),
                  (''properties'', JObj [(''name'', JObj [(''default'', JStr ''b'')])])]"

definition d_json :: json where
  "d_json = JObj [(''title'', JStr ''D''), (''properties'', JObj [])]"

definition u_json :: json where
  "u_json = JObj [(''title'', JStr ''U''), (''properties'', JObj [])]"

definition foo_json :: json where
  "foo_json = JObj [(''title'', JStr ''FooV1''), (''properties'', JObj [])]"

definition example_world :: world where
  "example_world =
     \<lparr>here = ''/s'',
      relpath = (\<lambda>p start. drop (length start + 1) p),
      json_loads = map_of [(''{A}'', a_json), (''{B}'', b_json), (''{D}'', d_json),
                           (''{U}'', u_json), (''{F}'', foo_json)],
      set_order = (\<lambda>xs. xs),
      files = map_of
        [(''/s/expconf/v1/a.json'', ''{A}''),
         (''/s/expconf/v1/b.json'', ''{B}''),
         (''/s/expconf/v1/d.json'', ''{D}''),
         (''/s/expconf/v1/u.json'', ''{U}''),
         (''/s/expconf/ab/foo.json'', ''{F}''),
         (''x.go'', go_text),
         (''bad.go'', bad_go_text)],
      listdir = map_of
        [(''/s/expconf/v1'', [''u.json'', ''README'', ''d.json'', ''b.json'', ''a.json'']),
         (''/s/expconf/ab'', [''foo.json''])],
      denied = (\<lambda>p. False),
      os_walk = (\<lambda>d. if d = ''/s/expconf''
                  then [(''/s/expconf'', [''v1''], []),
                        (''/s/expconf/v1'', [], [''u.json'', ''README'', ''d.json'', ''b.json'', ''a.json''])]
                  else []),
      stdout = [],
      written = []\<rparr>"


text \<open>The same files, found by \<open>os.walk\<close> in another order.\<close>

definition other_walk :: "string \<Rightarrow> (string \<times> string list \<times> string list) list" where
  "other_walk d =
     (if d = ''/s/expconf''
      then [(''/s/expconf/v1'', [], [''a.json'', ''d.json'', ''b.json'', ''u.json'', ''README'']),
            (''/s/expconf'', [''v1''], [])]
      else [])"

section \<open>Properties\<close>

lemma startswith_star: "startswith ty ''*'' \<longleftrightarrow> (\<exists>r. ty = CHR ''*'' # r)"
  by (cases ty) (auto simp: startswith_def)

lemma startswith_star2:
  "startswith ty ''**'' \<longleftrightarrow> (\<exists>r. ty = CHR ''*'' # CHR ''*'' # r)"
  by (cases ty; cases "tl ty") (auto simp: startswith_def)

lemmas str_eval =
  lower_def upper_def lower_char_def upper_char_def isupper_def islower_def isdigit_def
  isspace_def char_of_def bit_Suc_0_iff startswith_def endswith_def

lemma get_defaulted_type_declared:
  assumes "schema_json sch = JObj kvs"
      and "map_of kvs ''properties'' = Some (JObj props)"
      and "map_of props tag = Some (JObj pobj)"
  shows "get_defaulted_type sch tag ty =
     (let dflt = dict_get pobj ''default'' JNull;
          required = py_or (dict_get kvs ''required'' (JArr []))
                           (dict_get kvs ''eventuallyRequired'' (JArr []))
      in if dflt \<noteq> JNull then
           (if \<not> startswith ty ''*'' then Inl (MustBePointer tag ty)
            else if startswith ty ''**'' then Inl (MustNotBeDoublePointer tag ty)
            else Inr (tl ty, dflt, required))
         else Inr (ty, dflt, required))"
  using assms by (simp add: get_defaulted_type_def dict_get_def Let_def)

lemma get_defaulted_type_success:
  assumes "get_defaulted_type sch tag ty = Inr (t', d, r)"
  shows "(d = JNull \<longrightarrow> t' = ty) \<and>
         (d \<noteq> JNull \<longrightarrow> ty = CHR ''*'' # t' \<and> \<not> startswith t' ''*'')"
  using assms
  by (auto simp: get_defaulted_type_def Let_def startswith_star startswith_star2
      split: json.splits option.splits if_splits)

lemma go_getters_single:
  assumes "struct \<noteq> []" and "get_defaulted_type sch tag ty = Inr (t', d, r)"
  shows "go_getters struct sch [(field, ty, tag)] =
         Inr (getter_lines [lower_char (hd struct)] struct field ty t' d)"
  using assms by (simp add: go_getters_def)

lemma go_getters_loop_append:
  "go_getters_loop x struct sch (pre @ post) =
     (case go_getters_loop x struct sch pre of
        Inl e \<Rightarrow> Inl e
      | Inr la \<Rightarrow>
          (case go_getters_loop x struct sch post of
             Inl e \<Rightarrow> Inl e
           | Inr lb \<Rightarrow> Inr (la @ lb)))"
proof (induction pre)
  case Nil
  then show ?case by (simp split: sum.splits)
next
  case (Cons a pre)
  obtain field ty tag where a: "a = (field, ty, tag)"
    by (cases a) auto
  show ?case
    unfolding a using Cons.IH
    by (simp split: sum.splits prod.splits)
qed

lemma go_getters_loop:
  "struct \<noteq> [] \<Longrightarrow>
   go_getters struct sch spec = go_getters_loop [lower_char (hd struct)] struct sch spec"
  by (cases spec) (simp_all add: go_getters_def)

lemma go_getters_struct:
  "go_getters struct sch (pre @ f # post) = Inr ls \<Longrightarrow> struct \<noteq> []"
  by (auto simp: go_getters_def split: if_splits)

lemma go_getters_field_split:
  assumes "go_getters struct sch (pre @ (field, ty, tag) # post) = Inr ls"
  shows "\<exists>la lb t' d r.
           go_getters struct sch pre = Inr la \<and> go_getters struct sch post = Inr lb \<and>
           get_defaulted_type sch tag ty = Inr (t', d, r) \<and>
           ls = la @ getter_lines [lower_char (hd struct)] struct field ty t' d @ lb"
proof -
  let ?x = "[lower_char (hd struct)]"
  have ne: "struct \<noteq> []"
    using assms by (rule go_getters_struct)
  have l: "go_getters_loop ?x struct sch (pre @ (field, ty, tag) # post) = Inr ls"
    using assms go_getters_loop [OF ne] by simp
  then obtain la rest where la: "go_getters_loop ?x struct sch pre = Inr la"
      and rest: "go_getters_loop ?x struct sch ((field, ty, tag) # post) = Inr rest"
      and ls: "ls = la @ rest"
    unfolding go_getters_loop_append by (auto split: sum.splits)
  from rest obtain t' d r lb where g: "get_defaulted_type sch tag ty = Inr (t', d, r)"
      and lb: "go_getters_loop ?x struct sch post = Inr lb"
      and r: "rest = getter_lines ?x struct field ty t' d @ lb"
    by (auto split: sum.splits prod.splits)
  have "go_getters struct sch pre = Inr la" "go_getters struct sch post = Inr lb"
    using la lb go_getters_loop [OF ne] by simp_all
  with g ls r show ?thesis by blast
qed

lemma go_getters_field_join:
  assumes "struct \<noteq> []"
      and "go_getters struct sch pre = Inr la"
      and "go_getters struct sch post = Inr lb"
      and "get_defaulted_type sch tag ty = Inr (t', d, r)"
  shows "go_getters struct sch (pre @ (field, ty, tag) # post) =
         Inr (la @ getter_lines [lower_char (hd struct)] struct field ty t' d @ lb)"
  using assms
  by (simp add: go_getters_loop [OF assms(1)] go_getters_loop_append)

lemma get_defaulted_type_no_default:
  assumes "schema_json sch = JObj kvs"
      and "map_of kvs ''properties'' = Some (JObj props)"
      and "map_of props tag = None \<or> map_of props tag = Some (JBool True) \<or>
           (\<exists>pobj. map_of props tag = Some (JObj pobj) \<and>
              (map_of pobj ''default'' = None \<or> map_of pobj ''default'' = Some JNull))"
  shows "get_defaulted_type sch tag ty =
           Inr (ty, JNull, py_or (dict_get kvs ''required'' (JArr []))
                                 (dict_get kvs ''eventuallyRequired'' (JArr [])))"
  using assms
  by (auto simp: get_defaulted_type_def dict_get_def Let_def)

lemma go_getters_field_error:
  assumes "struct \<noteq> []"
      and "go_getters struct sch pre = Inr la"
      and "get_defaulted_type sch tag ty = Inl e"
  shows "go_getters struct sch (pre @ (field, ty, tag) # post) = Inl e"
  using assms
  by (simp add: go_getters_loop [OF assms(1)] go_getters_loop_append)

subsection \<open>Defaults and pointer types\<close>

text \<open>
  C2, as amended. Let the schema be an object with an object \<open>properties\<close>. Where
  the property of \<open>tag\<close> declares a default other than \<open>null\<close>, \<open>get_defaulted_type\<close>
  raises "must be a pointer" for a type that does not start with \<open>*\<close>, raises "must
  not be a double pointer" for a type that starts with \<open>**\<close>, and otherwise returns
  the type without its first \<open>*\<close>, together with the default. Where the property is
  absent, is \<open>true\<close>, declares no default or declares the default \<open>null\<close>,
  \<open>get_defaulted_type\<close> returns, with the declared type and the default \<open>None\<close>.
  Whenever \<open>get_defaulted_type\<close> returns, with a default that is not \<open>None\<close> the
  declared type is \<open>*\<close> followed by the returned type, which does not start with
  \<open>*\<close>, and with the default \<open>None\<close> the returned type is the declared one. The
  getters of a struct are emitted when every field resolves, field by field in the
  order of the fields: where \<open>go_getters\<close> returns for a struct with the field
  \<open>(field, ty, tag)\<close> between the fields \<open>pre\<close> and \<open>post\<close>, its lines are the
  getters of \<open>pre\<close>, the getter of the field and the getters of \<open>post\<close>; the getter
  of a field whose default is not \<open>None\<close> returns the effective type, panics when the
  stored pointer is \<open>nil\<close> and dereferences it otherwise; the getter of a field
  whose default is \<open>None\<close> returns the field as it is, with the declared type. So,
  in a struct whose fields before this one resolve, a field with a default other than
  \<open>null\<close> makes \<open>go_getters\<close> raise its "must be a pointer" or "must not be a double
  pointer", or, with one \<open>*\<close> and the fields after it resolving, gets the
  dereferencing getter of the type without the \<open>*\<close>; and a field with no default, or
  the default \<open>null\<close>, gets the transparent getter of the declared type when the fields
  after it resolve.
\<close>

theorem defaulted_type_one_pointer_level:
  "(schema_json sch = JObj kvs \<and> map_of kvs ''properties'' = Some (JObj props) \<and>
    map_of props tag = Some (JObj pobj) \<and> map_of pobj ''default'' = Some dflt \<and>
    dflt \<noteq> JNull \<longrightarrow>
      (\<not> startswith ty ''*'' \<longrightarrow>
         get_defaulted_type sch tag ty = Inl (MustBePointer tag ty)) \<and>
      (startswith ty ''**'' \<longrightarrow>
         get_defaulted_type sch tag ty = Inl (MustNotBeDoublePointer tag ty)) \<and>
      (startswith ty ''*'' \<and> \<not> startswith ty ''**'' \<longrightarrow>
         ty = CHR ''*'' # tl ty \<and>
         (\<exists>req. get_defaulted_type sch tag ty = Inr (tl ty, dflt, req))))
   \<and> (schema_json sch = JObj kvs \<and> map_of kvs ''properties'' = Some (JObj props) \<and>
      (map_of props tag = None \<or> map_of props tag = Some (JBool True) \<or>
       (\<exists>pobj. map_of props tag = Some (JObj pobj) \<and>
          (map_of pobj ''default'' = None \<or> map_of pobj ''default'' = Some JNull))) \<longrightarrow>
      (\<exists>req. get_defaulted_type sch tag ty = Inr (ty, JNull, req)))
   \<and> (get_defaulted_type sch tag ty = Inr (t', d, r) \<longrightarrow>
      (d \<noteq> JNull \<longrightarrow> ty = CHR ''*'' # t' \<and> \<not> startswith t' ''*'') \<and>
      (d = JNull \<longrightarrow> t' = ty))
   \<and> (go_getters struct sch (pre @ (field, ty, tag) # post) = Inr ls \<longrightarrow>
      (\<exists>la lb t' d r.
         go_getters struct sch pre = Inr la \<and> go_getters struct sch post = Inr lb \<and>
         get_defaulted_type sch tag ty = Inr (t', d, r) \<and>
         ls = la
           @ (if d = JNull
              then [''func ('' @ [lower_char (hd struct)] @ '' '' @ struct @ '') Get'' @ field
                      @ ''() '' @ ty @ '' {'',
                    TAB @ ''return '' @ [lower_char (hd struct)] @ ''.'' @ field,
                    ''}'',
                    []]
              else [''func ('' @ [lower_char (hd struct)] @ '' '' @ struct @ '') Get'' @ field
                      @ ''() '' @ t' @ '' {'',
                    TAB @ ''if '' @ [lower_char (hd struct)] @ ''.'' @ field @ '' == nil {'',
                    TAB @ TAB @ ''panic('' @ DQ @ ''You must call WithDefaults on '' @ struct
                      @ '' before .Get'' @ field @ DQ @ '')'',
                    TAB @ ''}'',
                    TAB @ ''return *'' @ [lower_char (hd struct)] @ ''.'' @ field,
                    ''}'',
                    []])
           @ lb))
   \<and> (struct \<noteq> [] \<and> go_getters struct sch pre = Inr la \<and>
      go_getters struct sch post = Inr lb \<and>
      get_defaulted_type sch tag ty = Inr (t', d, r) \<longrightarrow>
        go_getters struct sch (pre @ (field, ty, tag) # post) =
          Inr (la
               @ (if d = JNull
                  then [''func ('' @ [lower_char (hd struct)] @ '' '' @ struct @ '') Get'' @ field
                          @ ''() '' @ ty @ '' {'',
                        TAB @ ''return '' @ [lower_char (hd struct)] @ ''.'' @ field,
                        ''}'',
                        []]
                  else [''func ('' @ [lower_char (hd struct)] @ '' '' @ struct @ '') Get'' @ field
                          @ ''() '' @ t' @ '' {'',
                        TAB @ ''if '' @ [lower_char (hd struct)] @ ''.'' @ field @ '' == nil {'',
                        TAB @ TAB @ ''panic('' @ DQ @ ''You must call WithDefaults on '' @ struct
                          @ '' before .Get'' @ field @ DQ @ '')'',
                        TAB @ ''}'',
                        TAB @ ''return *'' @ [lower_char (hd struct)] @ ''.'' @ field,
                        ''}'',
                        []])
               @ lb))
   \<and> (schema_json sch = JObj kvs \<and> map_of kvs ''properties'' = Some (JObj props) \<and>
      map_of props tag = Some (JObj pobj) \<and> map_of pobj ''default'' = Some dflt \<and>
      dflt \<noteq> JNull \<and> struct \<noteq> [] \<and> go_getters struct sch pre = Inr la \<longrightarrow>
        (\<not> startswith ty ''*'' \<longrightarrow>
           go_getters struct sch (pre @ (field, ty, tag) # post) = Inl (MustBePointer tag ty)) \<and>
        (startswith ty ''**'' \<longrightarrow>
           go_getters struct sch (pre @ (field, ty, tag) # post)
             = Inl (MustNotBeDoublePointer tag ty)) \<and>
        (startswith ty ''*'' \<and> \<not> startswith ty ''**'' \<and>
         go_getters struct sch post = Inr lb \<longrightarrow>
           go_getters struct sch (pre @ (field, ty, tag) # post) =
             Inr (la
                  @ [''func ('' @ [lower_char (hd struct)] @ '' '' @ struct @ '') Get'' @ field
                       @ ''() '' @ tl ty @ '' {'',
                     TAB @ ''if '' @ [lower_char (hd struct)] @ ''.'' @ field @ '' == nil {'',
                     TAB @ TAB @ ''panic('' @ DQ @ ''You must call WithDefaults on '' @ struct
                       @ '' before .Get'' @ field @ DQ @ '')'',
                     TAB @ ''}'',
                     TAB @ ''return *'' @ [lower_char (hd struct)] @ ''.'' @ field,
                     ''}'',
                     []]
                  @ lb)))
   \<and> (schema_json sch = JObj kvs \<and> map_of kvs ''properties'' = Some (JObj props) \<and>
      (map_of props tag = None \<or> map_of props tag = Some (JBool True) \<or>
       (\<exists>pobj. map_of props tag = Some (JObj pobj) \<and>
          (map_of pobj ''default'' = None \<or> map_of pobj ''default'' = Some JNull))) \<and>
      struct \<noteq> [] \<and> go_getters struct sch pre = Inr la \<and>
      go_getters struct sch post = Inr lb \<longrightarrow>
        go_getters struct sch (pre @ (field, ty, tag) # post) =
          Inr (la
               @ [''func ('' @ [lower_char (hd struct)] @ '' '' @ struct @ '') Get'' @ field
                    @ ''() '' @ ty @ '' {'',
                  TAB @ ''return '' @ [lower_char (hd struct)] @ ''.'' @ field,
                  ''}'',
                  []]
               @ lb))"
proof -
  let ?g = "get_defaulted_type sch tag ty"
  let ?x = "[lower_char (hd struct)]"
  let ?decl = "schema_json sch = JObj kvs \<and> map_of kvs ''properties'' = Some (JObj props) \<and>
          map_of props tag = Some (JObj pobj) \<and> map_of pobj ''default'' = Some dflt \<and>
          dflt \<noteq> JNull"
  let ?T = "[''func ('' @ ?x @ '' '' @ struct @ '') Get'' @ field @ ''() '' @ ty @ '' {'',
             TAB @ ''return '' @ ?x @ ''.'' @ field,
             ''}'',
             []]"
  let ?D = "\<lambda>t'. [''func ('' @ ?x @ '' '' @ struct @ '') Get'' @ field @ ''() '' @ t' @ '' {'',
             TAB @ ''if '' @ ?x @ ''.'' @ field @ '' == nil {'',
             TAB @ TAB @ ''panic('' @ DQ @ ''You must call WithDefaults on '' @ struct
               @ '' before .Get'' @ field @ DQ @ '')'',
             TAB @ ''}'',
             TAB @ ''return *'' @ ?x @ ''.'' @ field,
             ''}'',
             []]"
  have gl: "getter_lines ?x struct field ty t' d = (if d = JNull then ?T else ?D t')" for t' d
    by (simp add: getter_lines_def)
  have g: "?g = (if \<not> startswith ty ''*'' then Inl (MustBePointer tag ty)
                 else if startswith ty ''**'' then Inl (MustNotBeDoublePointer tag ty)
                 else Inr (tl ty, dflt, py_or (dict_get kvs ''required'' (JArr []))
                                            (dict_get kvs ''eventuallyRequired'' (JArr []))))"
    if decl: ?decl
  proof -
    have dg: "dict_get pobj ''default'' JNull = dflt"
      using decl by (simp add: dict_get_def)
    show ?thesis
      using get_defaulted_type_declared [of sch kvs props tag pobj ty] decl dg
      by (simp add: Let_def)
  qed
  have a: "?decl \<longrightarrow>
      (\<not> startswith ty ''*'' \<longrightarrow> ?g = Inl (MustBePointer tag ty)) \<and>
      (startswith ty ''**'' \<longrightarrow> ?g = Inl (MustNotBeDoublePointer tag ty)) \<and>
      (startswith ty ''*'' \<and> \<not> startswith ty ''**'' \<longrightarrow>
         ty = CHR ''*'' # tl ty \<and> (\<exists>req. ?g = Inr (tl ty, dflt, req)))"
    using g by (auto simp: startswith_star startswith_star2)
  have b: "schema_json sch = JObj kvs \<and> map_of kvs ''properties'' = Some (JObj props) \<and>
      (map_of props tag = None \<or> map_of props tag = Some (JBool True) \<or>
       (\<exists>pobj. map_of props tag = Some (JObj pobj) \<and>
          (map_of pobj ''default'' = None \<or> map_of pobj ''default'' = Some JNull))) \<longrightarrow>
      (\<exists>req. ?g = Inr (ty, JNull, req))"
    using get_defaulted_type_no_default [of sch kvs props tag ty] by blast
  have c: "?g = Inr (t', d, r) \<longrightarrow>
      (d \<noteq> JNull \<longrightarrow> ty = CHR ''*'' # t' \<and> \<not> startswith t' ''*'') \<and>
      (d = JNull \<longrightarrow> t' = ty)"
    using get_defaulted_type_success [of sch tag ty t' d r] by blast
  have d: "go_getters struct sch (pre @ (field, ty, tag) # post) = Inr ls \<longrightarrow>
      (\<exists>la lb t' d r.
         go_getters struct sch pre = Inr la \<and> go_getters struct sch post = Inr lb \<and>
         ?g = Inr (t', d, r) \<and>
         ls = la @ (if d = JNull then ?T else ?D t') @ lb)"
    using go_getters_field_split [of struct sch pre field ty tag post ls]
    unfolding gl by blast
  have e: "struct \<noteq> [] \<and> go_getters struct sch pre = Inr la \<and>
      go_getters struct sch post = Inr lb \<and> ?g = Inr (t', d, r) \<longrightarrow>
        go_getters struct sch (pre @ (field, ty, tag) # post) =
          Inr (la @ (if d = JNull then ?T else ?D t') @ lb)"
    using go_getters_field_join [of struct sch pre la post lb tag ty t' d r field]
    unfolding gl by blast
  have f: "schema_json sch = JObj kvs \<and> map_of kvs ''properties'' = Some (JObj props) \<and>
      map_of props tag = Some (JObj pobj) \<and> map_of pobj ''default'' = Some dflt \<and>
      dflt \<noteq> JNull \<and> struct \<noteq> [] \<and> go_getters struct sch pre = Inr la \<longrightarrow>
        (\<not> startswith ty ''*'' \<longrightarrow>
           go_getters struct sch (pre @ (field, ty, tag) # post) = Inl (MustBePointer tag ty)) \<and>
        (startswith ty ''**'' \<longrightarrow>
           go_getters struct sch (pre @ (field, ty, tag) # post)
             = Inl (MustNotBeDoublePointer tag ty)) \<and>
        (startswith ty ''*'' \<and> \<not> startswith ty ''**'' \<and>
         go_getters struct sch post = Inr lb \<longrightarrow>
           go_getters struct sch (pre @ (field, ty, tag) # post) = Inr (la @ ?D (tl ty) @ lb))"
  proof (intro impI, elim conjE)
    assume h: "schema_json sch = JObj kvs" "map_of kvs ''properties'' = Some (JObj props)"
      "map_of props tag = Some (JObj pobj)" "map_of pobj ''default'' = Some dflt"
      "dflt \<noteq> JNull" "struct \<noteq> []" "go_getters struct sch pre = Inr la"
    have decl: ?decl
      using h(1-5) by simp
    note gd = a [THEN mp, OF decl]
    have 1: "go_getters struct sch (pre @ (field, ty, tag) # post) = Inl (MustBePointer tag ty)"
      if n: "\<not> startswith ty ''*''"
    proof -
      have "?g = Inl (MustBePointer tag ty)"
        using gd n by blast
      then show ?thesis
        by (rule go_getters_field_error [OF h(6,7)])
    qed
    have 2: "go_getters struct sch (pre @ (field, ty, tag) # post)
               = Inl (MustNotBeDoublePointer tag ty)"
      if n: "startswith ty ''**''"
    proof -
      have "?g = Inl (MustNotBeDoublePointer tag ty)"
        using gd n by blast
      then show ?thesis
        by (rule go_getters_field_error [OF h(6,7)])
    qed
    have 3: "go_getters struct sch (pre @ (field, ty, tag) # post) = Inr (la @ ?D (tl ty) @ lb)"
      if s: "startswith ty ''*'' \<and> \<not> startswith ty ''**'' \<and> go_getters struct sch post = Inr lb"
    proof -
      from s gd obtain req where r: "?g = Inr (tl ty, dflt, req)"
        by blast
      from s have p: "go_getters struct sch post = Inr lb"
        by simp
      show ?thesis
        using go_getters_field_join [OF h(6,7) p r, of field] h(5)
        by (simp add: getter_lines_def)
    qed
    from 1 2 3 show "(\<not> startswith ty ''*'' \<longrightarrow>
           go_getters struct sch (pre @ (field, ty, tag) # post) = Inl (MustBePointer tag ty)) \<and>
        (startswith ty ''**'' \<longrightarrow>
           go_getters struct sch (pre @ (field, ty, tag) # post)
             = Inl (MustNotBeDoublePointer tag ty)) \<and>
        (startswith ty ''*'' \<and> \<not> startswith ty ''**'' \<and>
         go_getters struct sch post = Inr lb \<longrightarrow>
           go_getters struct sch (pre @ (field, ty, tag) # post) = Inr (la @ ?D (tl ty) @ lb))"
      by blast
  qed
  have k: "schema_json sch = JObj kvs \<and> map_of kvs ''properties'' = Some (JObj props) \<and>
      (map_of props tag = None \<or> map_of props tag = Some (JBool True) \<or>
       (\<exists>pobj. map_of props tag = Some (JObj pobj) \<and>
          (map_of pobj ''default'' = None \<or> map_of pobj ''default'' = Some JNull))) \<and>
      struct \<noteq> [] \<and> go_getters struct sch pre = Inr la \<and>
      go_getters struct sch post = Inr lb \<longrightarrow>
        go_getters struct sch (pre @ (field, ty, tag) # post) = Inr (la @ ?T @ lb)"
  proof (intro impI, elim conjE)
    assume h: "schema_json sch = JObj kvs" "map_of kvs ''properties'' = Some (JObj props)"
      "map_of props tag = None \<or> map_of props tag = Some (JBool True) \<or>
       (\<exists>pobj. map_of props tag = Some (JObj pobj) \<and>
          (map_of pobj ''default'' = None \<or> map_of pobj ''default'' = Some JNull))"
      "struct \<noteq> []" "go_getters struct sch pre = Inr la" "go_getters struct sch post = Inr lb"
    note r = get_defaulted_type_no_default [OF h(1-3), of ty]
    show "go_getters struct sch (pre @ (field, ty, tag) # post) = Inr (la @ ?T @ lb)"
      using go_getters_field_join [OF h(4-6) r, of field]
      by (simp add: getter_lines_def)
  qed
  from a b c d e f k show ?thesis by (intro conjI)
qed

theorem defaulted_type_one_pointer_level_witness:
  "get_defaulted_type (widget_schema (JStr ''anon'')) ''name'' ''string''
     = Inl (MustBePointer ''name'' ''string'')
   \<and> get_defaulted_type (widget_schema (JStr ''anon'')) ''name'' ''**string''
     = Inl (MustNotBeDoublePointer ''name'' ''**string'')
   \<and> (\<exists>req. get_defaulted_type (widget_schema (JStr ''anon'')) ''name'' ''*string''
            = Inr (''string'', JStr ''anon'', req))
   \<and> (\<exists>req. get_defaulted_type (widget_schema (JStr ''anon'')) ''size'' ''int''
            = Inr (''int'', JNull, req))
   \<and> go_getters ''WidgetV1'' (widget_schema (JStr ''anon''))
        [(''Size'', ''int'', ''size''), (''Name'', ''*string'', ''name'')]
     = Inr [''func (w WidgetV1) GetSize() int {'',
            TAB @ ''return w.Size'',
            ''}'',
            [],
            ''func (w WidgetV1) GetName() string {'',
            TAB @ ''if w.Name == nil {'',
            TAB @ TAB @ ''panic('' @ DQ @ ''You must call WithDefaults on WidgetV1 before .GetName''
              @ DQ @ '')'',
            TAB @ ''}'',
            TAB @ ''return *w.Name'',
            ''}'',
            []]
   \<and> go_getters ''WidgetV1'' (widget_schema (JStr ''anon''))
        [(''Size'', ''int'', ''size''), (''Name'', ''string'', ''name''),
         (''Tags'', ''[]string'', ''tags'')]
     = Inl (MustBePointer ''name'' ''string'')
   \<and> go_getters ''WidgetV1'' (widget_schema (JStr ''anon''))
        [(''Size'', ''int'', ''size''), (''Tags'', ''[]string'', ''tags'')]
     = Inr [''func (w WidgetV1) GetSize() int {'',
            TAB @ ''return w.Size'',
            ''}'',
            [],
            ''func (w WidgetV1) GetTags() []string {'',
            TAB @ ''return w.Tags'',
            ''}'',
            []]"
proof -
  let ?W = "widget_schema (JStr ''anon'')"
  note defs = widget_schema_def widget_items_def widget_properties_def widget_property_def
  have decl: "schema_json ?W = JObj (widget_items (JStr ''anon'')) \<and>
      map_of (widget_items (JStr ''anon'')) ''properties''
        = Some (JObj (widget_properties (JStr ''anon''))) \<and>
      map_of (widget_properties (JStr ''anon'')) ''name''
        = Some (JObj (widget_property (JStr ''anon''))) \<and>
      map_of (widget_property (JStr ''anon'')) ''default'' = Some (JStr ''anon'') \<and>
      JStr ''anon'' \<noteq> JNull"
    by (simp add: defs)
  have s1: "\<not> startswith ''string'' ''*''"
    by (simp add: startswith_def)
  have 1: "get_defaulted_type ?W ''name'' ''string'' = Inl (MustBePointer ''name'' ''string'')"
    by (rule defaulted_type_one_pointer_level [where sch = ?W
          and kvs = "widget_items (JStr ''anon'')" and props = "widget_properties (JStr ''anon'')"
          and pobj = "widget_property (JStr ''anon'')" and dflt = "JStr ''anon''"
          and tag = "''name''" and ty = "''string''", THEN conjunct1, THEN mp, OF decl,
          THEN conjunct1, THEN mp, OF s1])
  have s2: "startswith ''**string'' ''**''"
    by (simp add: startswith_def)
  have 2: "get_defaulted_type ?W ''name'' ''**string''
             = Inl (MustNotBeDoublePointer ''name'' ''**string'')"
    by (rule defaulted_type_one_pointer_level [where sch = ?W
          and kvs = "widget_items (JStr ''anon'')" and props = "widget_properties (JStr ''anon'')"
          and pobj = "widget_property (JStr ''anon'')" and dflt = "JStr ''anon''"
          and tag = "''name''" and ty = "''**string''", THEN conjunct1, THEN mp, OF decl,
          THEN conjunct2, THEN conjunct1, THEN mp, OF s2])
  have s3: "startswith ''*string'' ''*'' \<and> \<not> startswith ''*string'' ''**''"
    by (simp add: startswith_def)
  have 3: "\<exists>req. get_defaulted_type ?W ''name'' ''*string'' = Inr (''string'', JStr ''anon'', req)"
    using defaulted_type_one_pointer_level [where sch = ?W
          and kvs = "widget_items (JStr ''anon'')" and props = "widget_properties (JStr ''anon'')"
          and pobj = "widget_property (JStr ''anon'')" and dflt = "JStr ''anon''"
          and tag = "''name''" and ty = "''*string''", THEN conjunct1, THEN mp, OF decl,
          THEN conjunct2, THEN conjunct2, THEN mp, OF s3, THEN conjunct2]
    by simp
  have nodecl: "schema_json ?W = JObj (widget_items (JStr ''anon'')) \<and>
      map_of (widget_items (JStr ''anon'')) ''properties''
        = Some (JObj (widget_properties (JStr ''anon''))) \<and>
      (map_of (widget_properties (JStr ''anon'')) ''size'' = None \<or>
       map_of (widget_properties (JStr ''anon'')) ''size'' = Some (JBool True) \<or>
       (\<exists>pobj. map_of (widget_properties (JStr ''anon'')) ''size'' = Some (JObj pobj) \<and>
          (map_of pobj ''default'' = None \<or> map_of pobj ''default'' = Some JNull)))"
    by (simp add: defs)
  have 4: "\<exists>req. get_defaulted_type ?W ''size'' ''int'' = Inr (''int'', JNull, req)"
    by (rule defaulted_type_one_pointer_level [where sch = ?W
          and kvs = "widget_items (JStr ''anon'')" and props = "widget_properties (JStr ''anon'')"
          and tag = "''size''" and ty = "''int''",
          THEN conjunct2, THEN conjunct1, THEN mp, OF nodecl])
  have la: "go_getters ''WidgetV1'' ?W [(''Size'', ''int'', ''size'')]
              = Inr [''func (w WidgetV1) GetSize() int {'', TAB @ ''return w.Size'', ''}'', []]"
    by (simp add: defs go_getters_def get_defaulted_type_def dict_get_def py_or_def
        getter_lines_def str_eval)
  have lb: "go_getters ''WidgetV1'' ?W [] = Inr []"
    by (simp add: go_getters_def)
  have g: "get_defaulted_type ?W ''name'' ''*string''
             = Inr (''string'', JStr ''anon'', JArr [JStr ''name''])"
    by (simp add: defs get_defaulted_type_def dict_get_def py_or_def startswith_def)
  have ne: "''WidgetV1'' \<noteq> []"
    by simp
  have 5: "go_getters ''WidgetV1'' ?W ([(''Size'', ''int'', ''size'')] @ (''Name'', ''*string'', ''name'') # [])
     = Inr [''func (w WidgetV1) GetSize() int {'',
            TAB @ ''return w.Size'',
            ''}'',
            [],
            ''func (w WidgetV1) GetName() string {'',
            TAB @ ''if w.Name == nil {'',
            TAB @ TAB @ ''panic('' @ DQ @ ''You must call WithDefaults on WidgetV1 before .GetName''
              @ DQ @ '')'',
            TAB @ ''}'',
            TAB @ ''return *w.Name'',
            ''}'',
            []]"
    using defaulted_type_one_pointer_level [where sch = ?W and struct = "''WidgetV1''"
        and pre = "[(''Size'', ''int'', ''size'')]" and post = "[]" and field = "''Name''"
        and ty = "''*string''" and tag = "''name''" and t' = "''string''" and d = "JStr ''anon''"
        and r = "JArr [JStr ''name'']"
        and la = "[''func (w WidgetV1) GetSize() int {'', TAB @ ''return w.Size'', ''}'', []]"
        and lb = "[]",
        THEN conjunct2, THEN conjunct2, THEN conjunct2, THEN conjunct2, THEN conjunct1,
        THEN mp, OF conjI [OF ne conjI [OF la conjI [OF lb g]]]]
    by (simp add: str_eval)
  have h6: "schema_json ?W = JObj (widget_items (JStr ''anon'')) \<and>
      map_of (widget_items (JStr ''anon'')) ''properties''
        = Some (JObj (widget_properties (JStr ''anon''))) \<and>
      map_of (widget_properties (JStr ''anon'')) ''name''
        = Some (JObj (widget_property (JStr ''anon''))) \<and>
      map_of (widget_property (JStr ''anon'')) ''default'' = Some (JStr ''anon'') \<and>
      JStr ''anon'' \<noteq> JNull \<and> ''WidgetV1'' \<noteq> [] \<and>
      go_getters ''WidgetV1'' ?W [(''Size'', ''int'', ''size'')]
        = Inr [''func (w WidgetV1) GetSize() int {'', TAB @ ''return w.Size'', ''}'', []]"
    using decl la by simp
  have 6: "go_getters ''WidgetV1'' ?W
        ([(''Size'', ''int'', ''size'')] @ (''Name'', ''string'', ''name'')
           # [(''Tags'', ''[]string'', ''tags'')])
     = Inl (MustBePointer ''name'' ''string'')"
    by (rule defaulted_type_one_pointer_level [where sch = ?W and struct = "''WidgetV1''"
          and kvs = "widget_items (JStr ''anon'')" and props = "widget_properties (JStr ''anon'')"
          and pobj = "widget_property (JStr ''anon'')" and dflt = "JStr ''anon''"
          and pre = "[(''Size'', ''int'', ''size'')]" and field = "''Name''"
          and ty = "''string''" and tag = "''name''"
          and la = "[''func (w WidgetV1) GetSize() int {'', TAB @ ''return w.Size'', ''}'', []]",
          THEN conjunct2, THEN conjunct2, THEN conjunct2, THEN conjunct2, THEN conjunct2,
          THEN conjunct1, THEN mp, OF h6, THEN conjunct1, THEN mp, OF s1])
  have h7: "schema_json ?W = JObj (widget_items (JStr ''anon'')) \<and>
      map_of (widget_items (JStr ''anon'')) ''properties''
        = Some (JObj (widget_properties (JStr ''anon''))) \<and>
      (map_of (widget_properties (JStr ''anon'')) ''tags'' = None \<or>
       map_of (widget_properties (JStr ''anon'')) ''tags'' = Some (JBool True) \<or>
       (\<exists>pobj. map_of (widget_properties (JStr ''anon'')) ''tags'' = Some (JObj pobj) \<and>
          (map_of pobj ''default'' = None \<or> map_of pobj ''default'' = Some JNull))) \<and>
      ''WidgetV1'' \<noteq> [] \<and>
      go_getters ''WidgetV1'' ?W [(''Size'', ''int'', ''size'')]
        = Inr [''func (w WidgetV1) GetSize() int {'', TAB @ ''return w.Size'', ''}'', []] \<and>
      go_getters ''WidgetV1'' ?W [] = Inr []"
    using la lb by (simp add: defs)
  have 7: "go_getters ''WidgetV1'' ?W
        ([(''Size'', ''int'', ''size'')] @ (''Tags'', ''[]string'', ''tags'') # [])
     = Inr [''func (w WidgetV1) GetSize() int {'',
            TAB @ ''return w.Size'',
            ''}'',
            [],
            ''func (w WidgetV1) GetTags() []string {'',
            TAB @ ''return w.Tags'',
            ''}'',
            []]"
    using defaulted_type_one_pointer_level [where sch = ?W and struct = "''WidgetV1''"
          and kvs = "widget_items (JStr ''anon'')" and props = "widget_properties (JStr ''anon'')"
          and pre = "[(''Size'', ''int'', ''size'')]" and post = "[]" and field = "''Tags''"
          and ty = "''[]string''" and tag = "''tags''"
          and la = "[''func (w WidgetV1) GetSize() int {'', TAB @ ''return w.Size'', ''}'', []]"
          and lb = "[]",
          THEN conjunct2, THEN conjunct2, THEN conjunct2, THEN conjunct2, THEN conjunct2,
          THEN conjunct2, THEN mp, OF h7]
    by (simp add: str_eval)
  from 1 2 3 4 5 6 7 show ?thesis by simp
qed

text \<open>
  C2 as it is stated fails for a property that declares the default \<open>null\<close>: the type
  \<open>string\<close> is no pointer type, and \<open>get_defaulted_type\<close> returns it; the type
  \<open>*string\<close> has one \<open>*\<close>, and it is returned with it.
\<close>

theorem defaulted_type_null_counterexample:
  "map_of (widget_property JNull) ''default'' = Some JNull
   \<and> get_defaulted_type (widget_schema JNull) ''name'' ''string''
     = Inr (''string'', JNull, JArr [JStr ''name''])
   \<and> get_defaulted_type (widget_schema JNull) ''name'' ''*string''
     = Inr (''*string'', JNull, JArr [JStr ''name''])"
  by (simp add: widget_schema_def widget_items_def widget_properties_def widget_property_def
      get_defaulted_type_def dict_get_def py_or_def)

lemma get_defaulted_type_drop_null_default:
  assumes "schema_json sch = JObj kvs"
      and "map_of kvs ''properties'' = Some (JObj props)"
      and "map_of props tag = Some (JObj pobj)"
      and "map_of pobj ''default'' = Some JNull"
  shows "get_defaulted_type sch t ty =
         get_defaulted_type
           (sch\<lparr>schema_json :=
                  JObj (AList.update ''properties''
                         (JObj (AList.update tag (JObj (AList.delete ''default'' pobj)) props))
                         kvs)\<rparr>) t ty"
proof (cases "t = tag")
  case True
  let ?req = "py_or (dict_get kvs ''required'' (JArr []))
                    (dict_get kvs ''eventuallyRequired'' (JArr []))"
  let ?kvs' = "AList.update ''properties''
                 (JObj (AList.update tag (JObj (AList.delete ''default'' pobj)) props)) kvs"
  have g: "get_defaulted_type sch tag ty = Inr (ty, JNull, ?req)"
    using get_defaulted_type_declared [OF assms(1-3), of ty] assms(4)
    by (simp add: dict_get_def Let_def)
  have k: "dict_get ?kvs' ''required'' (JArr []) = dict_get kvs ''required'' (JArr [])"
          "dict_get ?kvs' ''eventuallyRequired'' (JArr [])
             = dict_get kvs ''eventuallyRequired'' (JArr [])"
    by (simp_all add: dict_get_def update_conv')
  have g': "get_defaulted_type (sch\<lparr>schema_json := JObj ?kvs'\<rparr>) tag ty = Inr (ty, JNull, ?req)"
    using get_defaulted_type_declared
      [of "sch\<lparr>schema_json := JObj ?kvs'\<rparr>" ?kvs'
          "AList.update tag (JObj (AList.delete ''default'' pobj)) props" tag
          "AList.delete ''default'' pobj" ty] k
    by (simp add: update_conv' delete_conv' dict_get_def Let_def)
  from g g' True show ?thesis by simp
next
  case False
  then show ?thesis
    using assms(1,2)
    by (simp add: get_defaulted_type_def dict_get_def update_conv' Let_def)
qed

lemma go_getters_loop_cong:
  assumes "\<And>t ty. get_defaulted_type sch t ty = get_defaulted_type sch' t ty"
  shows "go_getters_loop x struct sch spec = go_getters_loop x struct sch' spec"
proof (induction spec)
  case Nil
  show ?case by simp
next
  case (Cons a spec)
  obtain field ty tag where a: "a = (field, ty, tag)"
    by (cases a) auto
  show ?case
    unfolding a by (simp add: Cons.IH assms [of tag ty] split: sum.splits prod.splits)
qed

lemma go_getters_cong:
  assumes "\<And>t ty. get_defaulted_type sch t ty = get_defaulted_type sch' t ty"
  shows "go_getters struct sch spec = go_getters struct sch' spec"
  using go_getters_loop_cong [OF assms] by (simp add: go_getters_def)

subsection \<open>The \<open>null\<close> default\<close>

text \<open>
  C10. Let the property of \<open>tag\<close> declare the default \<open>null\<close>. Then, for every declared
  type \<open>ty\<close>, with or without \<open>*\<close>, \<open>get_defaulted_type\<close> returns the declared type
  unchanged with the default \<open>None\<close>, and this is what it returns for the schema in
  which the property declares no default at all. The getter of a one-field struct is
  the transparent one. In a struct of any number of fields, the getters are those
  emitted for the schema in which the property declares no default; and where the
  field \<open>(field, ty, tag)\<close> stands between the fields \<open>pre\<close> and \<open>post\<close>, the lines are
  the getters of \<open>pre\<close>, the transparent getter of the field, which neither
  dereferences nor panics, and the getters of \<open>post\<close>: the getters are emitted when
  those of \<open>pre\<close> and \<open>post\<close> are, and only then.
\<close>

theorem null_default_is_no_default:
  assumes "schema_json sch = JObj kvs"
      and "map_of kvs ''properties'' = Some (JObj props)"
      and "map_of props tag = Some (JObj pobj)"
      and "map_of pobj ''default'' = Some JNull"
      and "struct \<noteq> []"
  shows "(\<exists>req. get_defaulted_type sch tag ty = Inr (ty, JNull, req))
       \<and> get_defaulted_type sch tag ty =
           get_defaulted_type
             (sch\<lparr>schema_json :=
                    JObj (AList.update ''properties''
                           (JObj (AList.update tag (JObj (AList.delete ''default'' pobj)) props))
                           kvs)\<rparr>) tag ty
       \<and> map_of (AList.delete ''default'' pobj) ''default'' = None
       \<and> go_getters struct sch [(field, ty, tag)] =
           Inr [''func ('' @ [lower_char (hd struct)] @ '' '' @ struct @ '') Get'' @ field
                  @ ''() '' @ ty @ '' {'',
                TAB @ ''return '' @ [lower_char (hd struct)] @ ''.'' @ field,
                ''}'',
                []]
       \<and> go_getters struct sch spec =
           go_getters struct
             (sch\<lparr>schema_json :=
                    JObj (AList.update ''properties''
                           (JObj (AList.update tag (JObj (AList.delete ''default'' pobj)) props))
                           kvs)\<rparr>) spec
       \<and> (go_getters struct sch pre = Inr la \<and> go_getters struct sch post = Inr lb \<longrightarrow>
            go_getters struct sch (pre @ (field, ty, tag) # post) =
              Inr (la
                   @ [''func ('' @ [lower_char (hd struct)] @ '' '' @ struct @ '') Get'' @ field
                        @ ''() '' @ ty @ '' {'',
                      TAB @ ''return '' @ [lower_char (hd struct)] @ ''.'' @ field,
                      ''}'',
                      []]
                   @ lb))
       \<and> (go_getters struct sch (pre @ (field, ty, tag) # post) = Inr ls \<longrightarrow>
            (\<exists>la lb. go_getters struct sch pre = Inr la \<and> go_getters struct sch post = Inr lb \<and>
               ls = la
                    @ [''func ('' @ [lower_char (hd struct)] @ '' '' @ struct @ '') Get'' @ field
                         @ ''() '' @ ty @ '' {'',
                       TAB @ ''return '' @ [lower_char (hd struct)] @ ''.'' @ field,
                       ''}'',
                       []]
                    @ lb))"
proof -
  let ?req = "py_or (dict_get kvs ''required'' (JArr []))
                    (dict_get kvs ''eventuallyRequired'' (JArr []))"
  let ?sch' = "sch\<lparr>schema_json :=
                    JObj (AList.update ''properties''
                           (JObj (AList.update tag (JObj (AList.delete ''default'' pobj)) props))
                           kvs)\<rparr>"
  let ?x = "[lower_char (hd struct)]"
  let ?T = "[''func ('' @ ?x @ '' '' @ struct @ '') Get'' @ field @ ''() '' @ ty @ '' {'',
             TAB @ ''return '' @ ?x @ ''.'' @ field,
             ''}'',
             []]"
  have gl: "getter_lines ?x struct field ty ty JNull = ?T"
    by (simp add: getter_lines_def)
  have g: "get_defaulted_type sch tag ty = Inr (ty, JNull, ?req)"
    using get_defaulted_type_declared [OF assms(1-3), of ty] assms(4)
    by (simp add: dict_get_def Let_def)
  have a: "\<exists>req. get_defaulted_type sch tag ty = Inr (ty, JNull, req)"
    using g by blast
  have b: "get_defaulted_type sch tag ty = get_defaulted_type ?sch' tag ty"
    by (rule get_defaulted_type_drop_null_default [OF assms(1-4)])
  have c: "map_of (AList.delete ''default'' pobj) ''default'' = None"
    by (simp add: delete_conv')
  have d: "go_getters struct sch [(field, ty, tag)] = Inr ?T"
    using go_getters_single [OF assms(5) g, of field] by (simp add: getter_lines_def)
  have e: "go_getters struct sch spec = go_getters struct ?sch' spec"
    by (rule go_getters_cong) (rule get_defaulted_type_drop_null_default [OF assms(1-4)])
  have f: "go_getters struct sch pre = Inr la \<and> go_getters struct sch post = Inr lb \<longrightarrow>
            go_getters struct sch (pre @ (field, ty, tag) # post) = Inr (la @ ?T @ lb)"
    using go_getters_field_join [OF assms(5) _ _ g, of pre la post lb field]
    unfolding gl by blast
  have h: "go_getters struct sch (pre @ (field, ty, tag) # post) = Inr ls \<longrightarrow>
            (\<exists>la lb. go_getters struct sch pre = Inr la \<and> go_getters struct sch post = Inr lb \<and>
               ls = la @ ?T @ lb)"
  proof
    assume "go_getters struct sch (pre @ (field, ty, tag) # post) = Inr ls"
    from go_getters_field_split [OF this] obtain la lb t' d r where
      s: "go_getters struct sch pre = Inr la" "go_getters struct sch post = Inr lb"
         "get_defaulted_type sch tag ty = Inr (t', d, r)"
         "ls = la @ getter_lines ?x struct field ty t' d @ lb"
      by blast
    from s(3) g have "t' = ty" "d = JNull"
      by simp_all
    with s(4) have "ls = la @ ?T @ lb"
      using gl by simp
    with s(1,2) show "\<exists>la lb. go_getters struct sch pre = Inr la \<and>
        go_getters struct sch post = Inr lb \<and> ls = la @ ?T @ lb"
      by blast
  qed
  from a b c d e f h show ?thesis by (intro conjI)
qed

theorem null_default_is_no_default_witness:
  "(\<exists>req. get_defaulted_type (widget_schema JNull) ''name'' ''map[string]int''
            = Inr (''map[string]int'', JNull, req))
   \<and> go_getters ''WidgetV1'' (widget_schema JNull) [(''Name'', ''map[string]int'', ''name'')]
     = Inr [''func (w WidgetV1) GetName() map[string]int {'',
            TAB @ ''return w.Name'',
            ''}'',
            []]
   \<and> go_getters ''WidgetV1'' (widget_schema JNull)
        [(''Size'', ''int'', ''size''), (''Name'', ''*string'', ''name''),
         (''Tags'', ''[]string'', ''tags'')]
     = Inr [''func (w WidgetV1) GetSize() int {'',
            TAB @ ''return w.Size'',
            ''}'',
            [],
            ''func (w WidgetV1) GetName() *string {'',
            TAB @ ''return w.Name'',
            ''}'',
            [],
            ''func (w WidgetV1) GetTags() []string {'',
            TAB @ ''return w.Tags'',
            ''}'',
            []]"
proof -
  let ?W = "widget_schema JNull"
  note defs = widget_schema_def widget_items_def widget_properties_def widget_property_def
  have h1: "schema_json ?W = JObj (widget_items JNull)"
    by (simp add: widget_schema_def)
  have h2: "map_of (widget_items JNull) ''properties'' = Some (JObj (widget_properties JNull))"
    by (simp add: widget_items_def)
  have h3: "map_of (widget_properties JNull) ''name'' = Some (JObj (widget_property JNull))"
    by (simp add: widget_properties_def)
  have h4: "map_of (widget_property JNull) ''default'' = Some JNull"
    by (simp add: widget_property_def)
  have h5: "''WidgetV1'' \<noteq> []"
    by simp
  have a: "\<exists>req. get_defaulted_type ?W ''name'' ''map[string]int''
            = Inr (''map[string]int'', JNull, req)"
    by (rule null_default_is_no_default [OF h1 h2 h3 h4 h5, where ty = "''map[string]int''",
          THEN conjunct1])
  have b: "go_getters ''WidgetV1'' ?W [(''Name'', ''map[string]int'', ''name'')]
     = Inr [''func (w WidgetV1) GetName() map[string]int {'',
            TAB @ ''return w.Name'',
            ''}'',
            []]"
    using null_default_is_no_default [OF h1 h2 h3 h4 h5, where ty = "''map[string]int''"
        and field = "''Name''", THEN conjunct2, THEN conjunct2, THEN conjunct2, THEN conjunct1]
    by (simp add: str_eval)
  have la: "go_getters ''WidgetV1'' ?W [(''Size'', ''int'', ''size'')]
              = Inr [''func (w WidgetV1) GetSize() int {'', TAB @ ''return w.Size'', ''}'', []]"
    by (simp add: defs go_getters_def get_defaulted_type_def dict_get_def py_or_def
        getter_lines_def str_eval)
  have lb: "go_getters ''WidgetV1'' ?W [(''Tags'', ''[]string'', ''tags'')]
              = Inr [''func (w WidgetV1) GetTags() []string {'', TAB @ ''return w.Tags'', ''}'', []]"
    by (simp add: defs go_getters_def get_defaulted_type_def dict_get_def py_or_def
        getter_lines_def str_eval)
  have c: "go_getters ''WidgetV1'' ?W
        ([(''Size'', ''int'', ''size'')] @ (''Name'', ''*string'', ''name'')
           # [(''Tags'', ''[]string'', ''tags'')])
     = Inr [''func (w WidgetV1) GetSize() int {'',
            TAB @ ''return w.Size'',
            ''}'',
            [],
            ''func (w WidgetV1) GetName() *string {'',
            TAB @ ''return w.Name'',
            ''}'',
            [],
            ''func (w WidgetV1) GetTags() []string {'',
            TAB @ ''return w.Tags'',
            ''}'',
            []]"
    using null_default_is_no_default [OF h1 h2 h3 h4 h5, where ty = "''*string''"
        and field = "''Name''" and pre = "[(''Size'', ''int'', ''size'')]"
        and post = "[(''Tags'', ''[]string'', ''tags'')]"
        and la = "[''func (w WidgetV1) GetSize() int {'', TAB @ ''return w.Size'', ''}'', []]"
        and lb = "[''func (w WidgetV1) GetTags() []string {'', TAB @ ''return w.Tags'', ''}'', []]",
        THEN conjunct2, THEN conjunct2, THEN conjunct2, THEN conjunct2, THEN conjunct2,
        THEN conjunct1, THEN mp, OF conjI [OF la lb]]
    by (simp add: str_eval)
  from a b c show ?thesis by simp
qed

subsection \<open>The \<open>required\<close> metadata\<close>

text \<open>
  C9, as amended. Where \<open>get_defaulted_type\<close> returns, the schema is an object and the
  metadata returned is its \<open>required\<close> value when the key is there and the value is
  true in Python's sense (a list that is not empty); when the key is absent, or its
  value is false in that sense (the empty list), it is the \<open>eventuallyRequired\<close>
  value, and the empty list when that key is absent too.
\<close>

theorem required_metadata:
  assumes "get_defaulted_type sch tag ty = Inr (t', d, r)"
  shows "\<exists>kvs. schema_json sch = JObj kvs \<and>
           r = (case map_of kvs ''required'' of
                  Some req \<Rightarrow>
                    if truthy req then req
                    else (case map_of kvs ''eventuallyRequired'' of
                            Some ev \<Rightarrow> ev
                          | None \<Rightarrow> JArr [])
                | None \<Rightarrow>
                    (case map_of kvs ''eventuallyRequired'' of
                       Some ev \<Rightarrow> ev
                     | None \<Rightarrow> JArr []))"
  using assms
  by (auto simp: get_defaulted_type_def Let_def dict_get_def py_or_def
      split: json.splits option.splits if_splits)

theorem required_metadata_witness:
  "get_defaulted_type (widget_schema JNull) ''name'' ''*string''
     = Inr (''*string'', JNull, JArr [JStr ''name''])
   \<and> (\<exists>kvs. schema_json (widget_schema JNull) = JObj kvs \<and>
          JArr [JStr ''name''] =
            (case map_of kvs ''required'' of
                  Some req \<Rightarrow>
                    if truthy req then req
                    else (case map_of kvs ''eventuallyRequired'' of
                            Some ev \<Rightarrow> ev
                          | None \<Rightarrow> JArr [])
                | None \<Rightarrow>
                    (case map_of kvs ''eventuallyRequired'' of
                       Some ev \<Rightarrow> ev
                     | None \<Rightarrow> JArr [])))"
proof -
  have ok: "get_defaulted_type (widget_schema JNull) ''name'' ''*string''
     = Inr (''*string'', JNull, JArr [JStr ''name''])"
    by (simp add: widget_schema_def widget_items_def widget_properties_def widget_property_def
      get_defaulted_type_def dict_get_def py_or_def)
  from ok required_metadata [OF ok] show ?thesis by blast
qed

text \<open>
  C9 as it is stated fails for a schema whose \<open>required\<close> list is there and empty:
  the metadata is the \<open>eventuallyRequired\<close> list, not the \<open>required\<close> one.
\<close>

theorem required_present_but_empty_counterexample:
  "schema_json (widget_schema (JStr ''anon'')) = JObj (widget_items (JStr ''anon''))
   \<and> map_of (widget_items (JStr ''anon'')) ''required'' = Some (JArr [])
   \<and> get_defaulted_type (widget_schema (JStr ''anon'')) ''name'' ''*string''
       = Inr (''string'', JStr ''anon'', JArr [JStr ''name''])
   \<and> JArr [JStr ''name''] \<noteq> JArr []"
  by (simp add: widget_schema_def widget_items_def widget_properties_def widget_property_def
      get_defaulted_type_def dict_get_def py_or_def startswith_def)





subsection \<open>Writing only what changed\<close>




subsection \<open>A struct is a record or a union\<close>

text \<open>
  C7. Where the struct that \<open>gen_go_struct\<close> works on has a plain field and a union
  field, \<open>gen_go_struct\<close> raises "has both union tags and normal fields": it returns
  no file name and no line, and \<open>go_struct_main\<close> ends with that error and writes
  nothing.
\<close>

theorem both_plain_and_union_fields_is_fatal:
  assumes "next_struct_name w file line = Inr struct"
      and "find_struct w file struct = Inr (field_spec, union_spec)"
      and "field_spec \<noteq> []"
      and "union_spec \<noteq> []"
  shows "gen_go_struct w package file line imports = Inl (BothUnionAndFields struct)
       \<and> go_struct_main w package file line imps = Inl (BothUnionAndFields struct)"
  using assms by (simp add: gen_go_struct_def go_struct_main_def)

theorem both_plain_and_union_fields_is_fatal_witness:
  "next_struct_name example_world ''x.go'' 20 = Inr ''MV1''
   \<and> find_struct example_world ''x.go'' ''MV1''
       = Inr ([(''Name'', ''string'', ''name'')], [(''A'', ''*AV1'')])
   \<and> gen_go_struct example_world ''expconf'' ''x.go'' 20 [] = Inl (BothUnionAndFields ''MV1'')
   \<and> go_struct_main example_world ''expconf'' ''x.go'' 20 None = Inl (BothUnionAndFields ''MV1'')"
proof -
  have h1: "next_struct_name example_world ''x.go'' 20 = Inr ''MV1''"
    by code_simp
  have h2: "find_struct example_world ''x.go'' ''MV1''
       = Inr ([(''Name'', ''string'', ''name'')], [(''A'', ''*AV1'')])"
    by code_simp
  have h3: "[(''Name'', ''string'', ''name'')] \<noteq> ([] :: FieldSpec list)"
    by simp
  have h4: "[(''A'', ''*AV1'')] \<noteq> ([] :: UnionSpec list)"
    by simp
  from h1 h2
    both_plain_and_union_fields_is_fatal [OF h1 h2 h3 h4, of "''expconf''" "[]" None]
  show ?thesis by blast
qed

subsection \<open>The dispatcher \<open>GetUnionMember\<close>\<close>

text \<open>
  C1 does not hold of the code. For the union \<open>UV1\<close> with the members \<open>A\<close> and \<open>B\<close>,
  \<open>go_unions\<close> emits a \<open>GetUnionMember\<close> that tests the members in their declared
  order and panics with "no union member defined" after the last test, but the
  branch of every member is \<open>return nil\<close>: the dispatcher returns \<open>nil\<close> for a member
  that is there, not the member. The getter of the common field \<open>Name\<close>, emitted
  next, does return through the member that is there.
\<close>

theorem get_union_member_returns_nil:
  "go_unions example_world ''UV1'' ''expconf'' ''x.go''
     \<lparr>schema_url = ''http://determined.ai/schemas/expconf/v1/u.json'', schema_text = ''{U}'',
      schema_json = u_json, golang_title = ''UV1'', python_title = ''uv1''\<rparr>
     [(''A'', ''*AV1''), (''B'', ''*BV1'')] =
   Inr [''func (u UV1) GetUnionMember() interface{} {'',
        TAB @ ''if u.A != nil {'',
        TAB @ TAB @ ''return nil'',
        TAB @ ''}'',
        TAB @ ''if u.B != nil {'',
        TAB @ TAB @ ''return nil'',
        TAB @ ''}'',
        TAB @ ''panic('' @ DQ @ ''no union member defined'' @ DQ @ '')'',
        ''}'',
        [],
        ''func (u UV1) GetName() string {'',
        TAB @ ''if u.A != nil {'',
        TAB @ TAB @ ''return u.A.GetName()'',
        TAB @ ''}'',
        TAB @ ''if u.B != nil {'',
        TAB @ TAB @ ''return u.B.GetName()'',
        TAB @ ''}'',
        TAB @ ''panic('' @ DQ @ ''no union member defined'' @ DQ @ '')'',
        ''}'',
        []]"
  by code_simp

subsection \<open>From a type name to its schema\<close>

text \<open>
  C3 does not hold of the code. The name \<open>FooV1AB\<close> does not end in \<open>V\<close> and digits,
  and \<open>find_schema\<close> does not fail on it: the pattern asks for \<open>V\<close> and a digit
  anywhere in the name, the directory is \<open>ab\<close>, the last two characters in lower
  case, and the schema titled \<open>FooV1\<close> there has the struct name \<open>FooV1AB\<close>.
\<close>

theorem find_schema_accepts_name_without_version_suffix:
  "has_version ''FooV1AB''
   \<and> lower (last2 ''FooV1AB'') = ''ab''
   \<and> find_schema example_world ''expconf'' ''FooV1AB'' =
       Inr \<lparr>schema_url = ''http://determined.ai/schemas/expconf/ab/foo.json'',
            schema_text = ''{F}'',
            schema_json = foo_json,
            golang_title = ''FooV1AB'',
            python_title = ''foo_v1ab''\<rparr>"
  by code_simp

subsection \<open>Scanning a struct definition\<close>

lemma find_struct_loop_fields_step:
  "find_struct_loop file name Fields fs us n (l # rest) =
     (case classify l of
        Closing \<Rightarrow> Inr (fs, us)
      | Skipped \<Rightarrow> find_struct_loop file name Fields fs us (Suc n) rest
      | UnionField u \<Rightarrow> find_struct_loop file name Fields fs (us @ [u]) (Suc n) rest
      | PlainField f \<Rightarrow> find_struct_loop file name Fields (fs @ [f]) us (Suc n) rest
      | Unclassified \<Rightarrow> Inl (UnsureHowToHandleLine n (rstrip l)))"
  by (simp add: classify_def split: option.splits)

lemma find_struct_loop_fields_run:
  assumes "\<forall>l\<in>set body. classify l \<noteq> Closing \<and> classify l \<noteq> Unclassified"
  shows "find_struct_loop file name Fields fs us n (body @ rest) =
         find_struct_loop file name Fields (fs @ plain_fields_of body) (us @ union_fields_of body)
           (n + length body) rest"
  using assms
proof (induction body arbitrary: fs us n)
  case Nil
  then show ?case by (simp add: plain_fields_of_def union_fields_of_def)
next
  case (Cons l body)
  then show ?case
    by (cases "classify l")
       (simp_all add: find_struct_loop_fields_step plain_fields_of_def union_fields_of_def
          del: find_struct_loop.simps)
qed

lemma find_struct_loop_pre_run:
  assumes "\<forall>l\<in>set pre. \<not> startswith l (''type '' @ name @ '' struct'')"
  shows "find_struct_loop file name Pre fs us n (pre @ rest) =
         find_struct_loop file name Pre fs us (n + length pre) rest"
  using assms by (induction pre arbitrary: n) simp_all

lemma find_struct_scan_body:
  assumes "\<forall>l\<in>set pre. \<not> startswith l (''type '' @ name @ '' struct'')"
      and "startswith open_line (''type '' @ name @ '' struct'')"
      and "\<forall>l\<in>set body. classify l \<noteq> Closing \<and> classify l \<noteq> Unclassified"
  shows "find_struct_loop file name Pre [] [] 0 (pre @ open_line # body @ rest) =
         find_struct_loop file name Fields (plain_fields_of body) (union_fields_of body)
           (length pre + 1 + length body) rest"
proof -
  have "find_struct_loop file name Pre [] [] 0 (pre @ open_line # body @ rest) =
        find_struct_loop file name Pre [] [] (length pre) (open_line # body @ rest)"
    using find_struct_loop_pre_run [OF assms(1), of "file" "[]" "[]" 0] by simp
  also have "\<dots> = find_struct_loop file name Fields [] [] (Suc (length pre)) (body @ rest)"
    using assms(2) by simp
  also have "\<dots> = find_struct_loop file name Fields (plain_fields_of body) (union_fields_of body)
                     (length pre + 1 + length body) rest"
    using find_struct_loop_fields_run [OF assms(3), of "file" name "[]" "[]"] by simp
  finally show ?thesis .
qed

text \<open>
  C6, as amended. Let the file open, and let \<open>t\<close> be the text read from it. If no
  line starts with
  \<open>type <name> struct\<close>, \<open>find_struct\<close> raises "failed to find struct definition".
  Otherwise take the lines before the first such line, that line, a run of body
  lines none of which is the closing line or a line that cannot be classified, and
  the lines left. If no line is left, the error is the same "failed to find struct
  definition". If the next line is the closing line, a line that is \<open>}\<close> once the
  white space around it is stripped, \<open>find_struct\<close> returns the plain fields and the
  union fields of the run, each in the order of the lines. If the next line cannot be
  classified, \<open>find_struct\<close> raises "unsure how to handle line" with the number of
  that line, counted from 0. A body line is skipped when it is blank, or when it
  starts with a tab followed by \<open>//\<close>: a comment line indented in another way is not
  skipped. A line that is none of these is a union field when it matches the pattern
  of union fields, a plain field when it matches the pattern of tagged fields and not
  the first, and cannot be classified otherwise.
\<close>

theorem find_struct_scan:
  assumes "open_read w file = Inr t"
  shows "((\<forall>l\<in>set (readlines t). \<not> startswith l (''type '' @ name @ '' struct'')) \<longrightarrow>
            find_struct w file name = Inl (FailedToFindStruct name file))
       \<and> (readlines t = pre @ open_line # body @ rest \<and>
          (\<forall>l\<in>set pre. \<not> startswith l (''type '' @ name @ '' struct'')) \<and>
          startswith open_line (''type '' @ name @ '' struct'') \<and>
          (\<forall>l\<in>set body. classify l \<noteq> Closing \<and> classify l \<noteq> Unclassified) \<longrightarrow>
            (rest = [] \<longrightarrow> find_struct w file name = Inl (FailedToFindStruct name file)) \<and>
            (rest \<noteq> [] \<and> classify (hd rest) = Closing \<longrightarrow>
               find_struct w file name = Inr (plain_fields_of body, union_fields_of body)) \<and>
            (rest \<noteq> [] \<and> classify (hd rest) = Unclassified \<longrightarrow>
               find_struct w file name =
                 Inl (UnsureHowToHandleLine (length pre + 1 + length body) (rstrip (hd rest)))))
       \<and> (classify l = Closing \<longleftrightarrow> strip l = ''}'')
       \<and> (classify l = Skipped \<longleftrightarrow>
            strip l \<noteq> ''}'' \<and> (strip l = [] \<or> startswith l (TAB @ ''//'')))
       \<and> (classify l = UnionField u \<longleftrightarrow>
            strip l \<noteq> ''}'' \<and> strip l \<noteq> [] \<and> \<not> startswith l (TAB @ ''//'') \<and>
            match_union l = Some u)
       \<and> (classify l = PlainField f \<longleftrightarrow>
            strip l \<noteq> ''}'' \<and> strip l \<noteq> [] \<and> \<not> startswith l (TAB @ ''//'') \<and>
            match_union l = None \<and> match_json l = Some f)
       \<and> (classify l = Unclassified \<longleftrightarrow>
            strip l \<noteq> ''}'' \<and> strip l \<noteq> [] \<and> \<not> startswith l (TAB @ ''//'') \<and>
            match_union l = None \<and> match_json l = None)"
proof -
  let ?opens = "\<lambda>l. startswith l (''type '' @ name @ '' struct'')"
  have fs: "find_struct w file name = find_struct_loop file name Pre [] [] 0 (readlines t)"
    using assms by (simp add: find_struct_def)
  have a: "(\<forall>l\<in>set (readlines t). \<not> ?opens l) \<longrightarrow>
            find_struct w file name = Inl (FailedToFindStruct name file)"
  proof
    assume "\<forall>l\<in>set (readlines t). \<not> ?opens l"
    then show "find_struct w file name = Inl (FailedToFindStruct name file)"
      using find_struct_loop_pre_run [of "readlines t" name "file" "[]" "[]" 0 "[]"] fs by simp
  qed
  have b: "(rest = [] \<longrightarrow> find_struct w file name = Inl (FailedToFindStruct name file)) \<and>
            (rest \<noteq> [] \<and> classify (hd rest) = Closing \<longrightarrow>
               find_struct w file name = Inr (plain_fields_of body, union_fields_of body)) \<and>
            (rest \<noteq> [] \<and> classify (hd rest) = Unclassified \<longrightarrow>
               find_struct w file name =
                 Inl (UnsureHowToHandleLine (length pre + 1 + length body) (rstrip (hd rest))))"
    if h: "readlines t = pre @ open_line # body @ rest \<and>
          (\<forall>l\<in>set pre. \<not> ?opens l) \<and> ?opens open_line \<and>
          (\<forall>l\<in>set body. classify l \<noteq> Closing \<and> classify l \<noteq> Unclassified)"
  proof -
    have r: "find_struct w file name =
             find_struct_loop file name Fields (plain_fields_of body) (union_fields_of body)
               (length pre + 1 + length body) rest"
      using find_struct_scan_body [of pre name open_line body "file" rest] h fs by simp
    show ?thesis
    proof (cases rest)
      case Nil
      then show ?thesis using r by simp
    next
      case (Cons x xs)
      then show ?thesis
        using r by (simp add: find_struct_loop_fields_step del: find_struct_loop.simps)
    qed
  qed
  have c: "(classify l = Closing \<longleftrightarrow> strip l = ''}'')"
    by (simp add: classify_def split: option.splits)
  have d: "(classify l = Skipped \<longleftrightarrow>
            strip l \<noteq> ''}'' \<and> (strip l = [] \<or> startswith l (TAB @ ''//'')))"
    by (simp add: classify_def split: option.splits)
  have e: "(classify l = UnionField u \<longleftrightarrow>
            strip l \<noteq> ''}'' \<and> strip l \<noteq> [] \<and> \<not> startswith l (TAB @ ''//'') \<and>
            match_union l = Some u)"
    by (simp add: classify_def split: option.splits)
  have f: "(classify l = PlainField f \<longleftrightarrow>
            strip l \<noteq> ''}'' \<and> strip l \<noteq> [] \<and> \<not> startswith l (TAB @ ''//'') \<and>
            match_union l = None \<and> match_json l = Some f)"
    by (simp add: classify_def split: option.splits)
  have g: "(classify l = Unclassified \<longleftrightarrow>
            strip l \<noteq> ''}'' \<and> strip l \<noteq> [] \<and> \<not> startswith l (TAB @ ''//'') \<and>
            match_union l = None \<and> match_json l = None)"
    by (simp add: classify_def split: option.splits)
  from a b c d e f g show ?thesis by blast
qed

theorem find_struct_scan_witness:
  "find_struct example_world ''x.go'' ''BV1''
     = Inr ([(''Name'', ''*string'', ''name''), (''Y'', ''int'', ''y'')], [])
   \<and> find_struct example_world ''x.go'' ''ZV1'' = Inl (FailedToFindStruct ''ZV1'' ''x.go'')
   \<and> find_struct example_world ''bad.go'' ''CV1''
     = Inl (UnsureHowToHandleLine 1 ''  // the name'')"
proof -
  have f: "open_read example_world ''x.go'' = Inr go_text"
    by code_simp
  have g: "open_read example_world ''bad.go'' = Inr bad_go_text"
    by code_simp
  let ?ls = "readlines go_text"
  let ?pre = "take 7 ?ls" and ?op = "?ls ! 7" and ?body = "take 4 (drop 8 ?ls)"
    and ?rest = "drop 12 ?ls"
  note T = find_struct_scan [OF f, where name = "''BV1''" and pre = ?pre and open_line = ?op
      and body = ?body and rest = ?rest]
  have h1: "?ls = ?pre @ ?op # ?body @ ?rest"
    by code_simp
  have h2: "\<forall>l\<in>set ?pre. \<not> startswith l (''type '' @ ''BV1'' @ '' struct'')"
    by code_simp
  have h3: "startswith ?op (''type '' @ ''BV1'' @ '' struct'')"
    by code_simp
  have h4: "\<forall>l\<in>set ?body. classify l \<noteq> Closing \<and> classify l \<noteq> Unclassified"
    by code_simp
  have h5: "?rest \<noteq> [] \<and> classify (hd ?rest) = Closing"
    by code_simp
  have v: "plain_fields_of ?body = [(''Name'', ''*string'', ''name''), (''Y'', ''int'', ''y'')]"
          "union_fields_of ?body = []"
    by code_simp+
  have "find_struct example_world ''x.go'' ''BV1''
          = Inr (plain_fields_of ?body, union_fields_of ?body)"
    using T h1 h2 h3 h4 h5 by blast
  then have 1: "find_struct example_world ''x.go'' ''BV1''
     = Inr ([(''Name'', ''*string'', ''name''), (''Y'', ''int'', ''y'')], [])"
    using v by simp
  have n: "\<forall>l\<in>set ?ls. \<not> startswith l (''type '' @ ''ZV1'' @ '' struct'')"
    by code_simp
  have 2: "find_struct example_world ''x.go'' ''ZV1'' = Inl (FailedToFindStruct ''ZV1'' ''x.go'')"
    using find_struct_scan [OF f, where name = "''ZV1''", THEN conjunct1] n by blast
  let ?bs = "readlines bad_go_text"
  note B = find_struct_scan [OF g, where name = "''CV1''" and pre = "[]" and open_line = "?bs ! 0"
      and body = "[]" and rest = "drop 1 ?bs"]
  have b1: "?bs = [] @ (?bs ! 0) # [] @ drop 1 ?bs"
    by code_simp
  have b2: "startswith (?bs ! 0) (''type '' @ ''CV1'' @ '' struct'')"
    by code_simp
  have b3: "drop 1 ?bs \<noteq> [] \<and> classify (hd (drop 1 ?bs)) = Unclassified"
    by code_simp
  have b4: "rstrip (hd (drop 1 ?bs)) = ''  // the name''"
    by code_simp
  have "find_struct example_world ''bad.go'' ''CV1''
          = Inl (UnsureHowToHandleLine (length ([] :: string list) + 1 + length ([] :: string list))
                   (rstrip (hd (drop 1 ?bs))))"
    using B b1 b2 b3 by simp
  then have 3: "find_struct example_world ''bad.go'' ''CV1''
     = Inl (UnsureHowToHandleLine 1 ''  // the name'')"
    using b4 by simp
  from 1 2 3 show ?thesis by blast
qed

text \<open>
  C6 as it is stated fails for a comment line of the body that does not start with a
  tab followed by \<open>//\<close>: the second line of the struct \<open>CV1\<close> is a comment and nothing
  else, indented with two blanks; it is not skipped, \<open>find_struct\<close> raises "unsure
  how to handle line" on it.
\<close>

theorem comment_line_not_skipped_counterexample:
  "readlines bad_go_text ! 1 = ''  // the name'' @ NL
   \<and> startswith (strip (readlines bad_go_text ! 1)) ''//''
   \<and> classify (readlines bad_go_text ! 1) = Unclassified
   \<and> find_struct example_world ''bad.go'' ''CV1''
     = Inl (UnsureHowToHandleLine 1 ''  // the name'')"
  by code_simp

subsection \<open>The common members of a union\<close>

lemma set_foldl_intersection:
  "set (foldl intersection cf ms) = {f \<in> set cf. \<forall>m\<in>set ms. f \<in> fst ` set m}"
  by (induction ms arbitrary: cf) (auto simp: intersection_def)

lemma distinct_foldl_intersection:
  "distinct cf \<Longrightarrow> distinct (foldl intersection cf ms)"
  by (induction ms arbitrary: cf) (auto simp: intersection_def)

lemma members_loop_distinct:
  "distinct (map fst mem) \<Longrightarrow> members_loop sch mem spec = Inr m \<Longrightarrow> distinct (map fst m)"
proof (induction spec arbitrary: mem)
  case Nil
  then show ?case by simp
next
  case (Cons a spec)
  obtain field ty tag where a: "a = (field, ty, tag)"
    by (cases a) auto
  show ?case
  proof (cases "get_defaulted_type sch tag ty")
    case (Inl e)
    then show ?thesis using Cons.prems a by simp
  next
    case (Inr x)
    obtain t d r where x: "x = (t, d, r)"
      by (cases x) auto
    have "members_loop sch (AList.update field t mem) spec = Inr m"
      using Cons.prems(2) a Inr x by simp
    moreover have "distinct (map fst (AList.update field t mem))"
      using Cons.prems(1) by (rule distinct_update)
    ultimately show ?thesis by (rule Cons.IH [rotated])
  qed
qed

lemma struct_members_distinct:
  assumes "struct_members w file package struct = Inr m"
  shows "distinct (map fst m)"
proof -
  obtain sch spec where "members_loop sch [] spec = Inr m"
    using assms
    by (auto simp: struct_members_def split: sum.splits prod.splits if_splits)
  then show ?thesis
    using members_loop_distinct [of "[]" sch spec m] by simp
qed

lemma per_struct_members_distinct:
  "per_struct_members w file package union_types = Inr psm \<Longrightarrow>
   length psm = length union_types \<and> (\<forall>m\<in>set psm. distinct (map fst m))"
proof (induction union_types arbitrary: psm)
  case Nil
  then show ?case by simp
next
  case (Cons s ss)
  then show ?case
    by (auto split: sum.splits dest: struct_members_distinct)
qed

lemma field_types_common:
  "\<forall>m\<in>set psm. map_of m f \<noteq> None \<Longrightarrow>
   field_types f psm = Inr (map (\<lambda>m. the (map_of m f)) psm)"
  by (induction psm) (auto simp: getitem_def)

lemma common_items_keys:
  "\<forall>f\<in>set fs. map_of m0 f \<noteq> None \<Longrightarrow>
   common_items m0 fs = Inr (map (\<lambda>f. (f, the (map_of m0 f))) fs)"
  by (induction fs) (auto simp: getitem_def)

lemma remdups_not_single:
  assumes "ts \<noteq> []"
  shows "length (remdups ts) \<noteq> 1 \<longleftrightarrow> (\<exists>a\<in>set ts. \<exists>b\<in>set ts. a \<noteq> b)"
proof -
  have "length (remdups ts) = card (set ts)"
    by (rule length_remdups_card_conv)
  moreover have "card (set ts) = 1 \<longleftrightarrow> \<not> (\<exists>a\<in>set ts. \<exists>b\<in>set ts. a \<noteq> b)"
  proof
    assume "card (set ts) = 1"
    then obtain x where "set ts = {x}"
      by (auto simp: card_1_singleton_iff)
    then show "\<not> (\<exists>a\<in>set ts. \<exists>b\<in>set ts. a \<noteq> b)" by auto
  next
    assume h: "\<not> (\<exists>a\<in>set ts. \<exists>b\<in>set ts. a \<noteq> b)"
    from assms obtain x where x: "x \<in> set ts"
      by (cases ts) auto
    with h have "set ts = {x}" by auto
    then show "card (set ts) = 1" by simp
  qed
  ultimately show ?thesis by simp
qed

lemma observed_types:
  assumes "\<forall>m\<in>set psm. map_of m f \<noteq> None"
  shows "set (map (\<lambda>m. the (map_of m f)) psm) = {t. \<exists>m\<in>set psm. map_of m f = Some t}"
  using assms by force

lemma types_differ_iff:
  assumes "\<forall>m\<in>set psm. map_of m f \<noteq> None" and "psm \<noteq> []"
  shows "length (remdups (map (\<lambda>m. the (map_of m f)) psm)) \<noteq> 1 \<longleftrightarrow>
         (\<exists>m\<in>set psm. \<exists>m'\<in>set psm. map_of m f \<noteq> map_of m' f)"
proof -
  let ?ts = "map (\<lambda>m. the (map_of m f)) psm"
  have eq: "(the (map_of m f) \<noteq> the (map_of m' f)) = (map_of m f \<noteq> map_of m' f)"
    if mm: "m \<in> set psm" "m' \<in> set psm" for m m'
  proof -
    obtain a b where "map_of m f = Some a" "map_of m' f = Some b"
      using assms(1) mm by (meson not_Some_eq)
    then show ?thesis by simp
  qed
  have "?ts \<noteq> []" using assms(2) by simp
  then have "length (remdups ?ts) \<noteq> 1 \<longleftrightarrow> (\<exists>a\<in>set ?ts. \<exists>b\<in>set ?ts. a \<noteq> b)"
    by (rule remdups_not_single)
  also have "\<dots> \<longleftrightarrow> (\<exists>m\<in>set psm. \<exists>m'\<in>set psm. the (map_of m f) \<noteq> the (map_of m' f))"
    by simp
  also have "\<dots> \<longleftrightarrow> (\<exists>m\<in>set psm. \<exists>m'\<in>set psm. map_of m f \<noteq> map_of m' f)"
    using eq by blast
  finally show ?thesis .
qed

lemma types_agree:
  assumes "\<forall>m\<in>set psm. map_of m f \<noteq> None" and "psm \<noteq> []"
      and "\<not> (\<exists>m\<in>set psm. \<exists>m'\<in>set psm. map_of m f \<noteq> map_of m' f)"
  shows "length (remdups (map (\<lambda>m. the (map_of m f)) psm)) = 1"
proof (rule ccontr)
  assume "length (remdups (map (\<lambda>m. the (map_of m f)) psm)) \<noteq> 1"
  then have "\<exists>m\<in>set psm. \<exists>m'\<in>set psm. map_of m f \<noteq> map_of m' f"
    by (rule types_differ_iff [OF assms(1,2), THEN iffD1])
  with assms(3) show False ..
qed

lemma types_differ:
  assumes "\<forall>m\<in>set psm. map_of m f \<noteq> None" and "psm \<noteq> []"
      and "\<exists>m\<in>set psm. \<exists>m'\<in>set psm. map_of m f \<noteq> map_of m' f"
  shows "length (remdups (map (\<lambda>m. the (map_of m f)) psm)) \<noteq> 1"
  using assms(3) by (rule types_differ_iff [OF assms(1,2), THEN iffD2])

lemma validate_types_ok:
  assumes "psm \<noteq> []"
      and "\<forall>f\<in>set fs. \<forall>m\<in>set psm. map_of m f \<noteq> None"
      and "\<forall>f\<in>set fs. \<not> (\<exists>m\<in>set psm. \<exists>m'\<in>set psm. map_of m f \<noteq> map_of m' f)"
  shows "validate_types ut psm fs = Inr ()"
  using assms(2,3)
proof (induction fs)
  case Nil
  then show ?case by simp
next
  case (Cons f fs)
  have c: "\<forall>m\<in>set psm. map_of m f \<noteq> None"
    using Cons.prems(1) by simp
  have p1: "\<forall>g\<in>set fs. \<forall>m\<in>set psm. map_of m g \<noteq> None"
    using Cons.prems(1) by simp
  have p2: "\<forall>g\<in>set fs. \<not> (\<exists>m\<in>set psm. \<exists>m'\<in>set psm. map_of m g \<noteq> map_of m' g)"
    using Cons.prems(2) by (meson list.set_intros(2))
  have ih: "validate_types ut psm fs = Inr ()"
    by (rule Cons.IH [OF p1 p2])
  have nb: "\<not> (\<exists>m\<in>set psm. \<exists>m'\<in>set psm. map_of m f \<noteq> map_of m' f)"
    using Cons.prems(2) by (meson list.set_intros(1))
  have one: "length (remdups (map (\<lambda>m. the (map_of m f)) psm)) = 1"
    by (rule types_agree [OF c assms(1) nb])
  show ?case
    by (simp only: validate_types.simps field_types_common [OF c] sum.case one ih
        not_True_eq_False if_False refl)
qed

lemma validate_types_bad:
  assumes "psm \<noteq> []"
      and "\<forall>f\<in>set fs. \<forall>m\<in>set psm. map_of m f \<noteq> None"
      and "\<exists>f\<in>set fs. \<exists>m\<in>set psm. \<exists>m'\<in>set psm. map_of m f \<noteq> map_of m' f"
  shows "\<exists>f\<in>set fs. (\<exists>m\<in>set psm. \<exists>m'\<in>set psm. map_of m f \<noteq> map_of m' f) \<and>
           validate_types ut psm fs =
             Inl (MultipleTypes f {t. \<exists>m\<in>set psm. map_of m f = Some t} ut)"
  using assms(2,3)
proof (induction fs)
  case Nil
  then show ?case by simp
next
  case (Cons f fs)
  let ?bad = "\<lambda>g. \<exists>m\<in>set psm. \<exists>m'\<in>set psm. map_of m g \<noteq> map_of m' g"
  let ?ts = "map (\<lambda>m. the (map_of m f)) psm"
  have c: "\<forall>m\<in>set psm. map_of m f \<noteq> None"
    using Cons.prems(1) by simp
  have p1: "\<forall>g\<in>set fs. \<forall>m\<in>set psm. map_of m g \<noteq> None"
    using Cons.prems(1) by simp
  note ft = field_types_common [OF c]
  show ?case
  proof (cases "?bad f")
    case True
    then have ne: "length (remdups ?ts) \<noteq> 1"
      by (rule types_differ [OF c assms(1)])
    have "validate_types ut psm (f # fs) = Inl (MultipleTypes f (set ?ts) ut)"
      by (simp only: validate_types.simps ft sum.case ne not_False_eq_True if_True)
    then have v: "validate_types ut psm (f # fs) =
                 Inl (MultipleTypes f {t. \<exists>m\<in>set psm. map_of m f = Some t} ut)"
      by (simp only: observed_types [OF c])
    have "f \<in> set (f # fs)" by simp
    with True v show ?thesis by blast
  next
    case False
    then have one: "length (remdups ?ts) = 1"
      by (rule types_agree [OF c assms(1)])
    have rest: "\<exists>g\<in>set fs. ?bad g"
      using Cons.prems(2) False by (metis set_ConsD)
    obtain g where g: "g \<in> set fs" "?bad g"
        "validate_types ut psm fs =
           Inl (MultipleTypes g {t. \<exists>m\<in>set psm. map_of m g = Some t} ut)"
      using Cons.IH [OF p1 rest] by blast
    have "validate_types ut psm (f # fs) = validate_types ut psm fs"
      by (simp only: validate_types.simps ft sum.case one not_True_eq_False if_False refl)
    then have v: "validate_types ut psm (f # fs) =
           Inl (MultipleTypes g {t. \<exists>m\<in>set psm. map_of m g = Some t} ut)"
      using g(3) by (rule trans)
    have "g \<in> set (f # fs)" using g(1) by simp
    with g(2) v show ?thesis by blast
  qed
qed





lemma common_members_char:
  assumes iter: "\<forall>xs. distinct xs \<longrightarrow> mset (set_order w xs) = mset xs"
      and psm: "per_struct_members w file package union_types = Inr psm"
      and ne: "union_types \<noteq> []"
  shows "((\<exists>f. (\<forall>m\<in>set psm. map_of m f \<noteq> None) \<and>
               (\<exists>m\<in>set psm. \<exists>m'\<in>set psm. map_of m f \<noteq> map_of m' f)) \<longrightarrow>
          (\<exists>f. (\<forall>m\<in>set psm. map_of m f \<noteq> None) \<and>
               (\<exists>m\<in>set psm. \<exists>m'\<in>set psm. map_of m f \<noteq> map_of m' f) \<and>
               get_union_common_members w file package union_types =
                 Inl (MultipleTypes f {t. \<exists>m\<in>set psm. map_of m f = Some t} union_types)))
       \<and> (\<not> (\<exists>f. (\<forall>m\<in>set psm. map_of m f \<noteq> None) \<and>
               (\<exists>m\<in>set psm. \<exists>m'\<in>set psm. map_of m f \<noteq> map_of m' f)) \<longrightarrow>
          (\<exists>r. get_union_common_members w file package union_types = Inr r \<and>
               sorted r \<and> distinct (map fst r) \<and>
               set r = {(f, t). \<forall>m\<in>set psm. map_of m f = Some t}))"
proof -
  let ?common = "\<lambda>f. \<forall>m\<in>set psm. map_of m f \<noteq> None"
  let ?bad = "\<lambda>f. \<exists>m\<in>set psm. \<exists>m'\<in>set psm. map_of m f \<noteq> map_of m' f"
  let ?g = "get_union_common_members w file package union_types"
  have len: "length psm = length union_types"
    using per_struct_members_distinct [OF psm] by simp
  then have pne: "psm \<noteq> []" using ne by auto
  then obtain m0 ms where p: "psm = m0 # ms"
    by (cases psm) auto
  have d0: "distinct (map fst m0)"
    using per_struct_members_distinct [OF psm] p by simp
  let ?cf = "foldl intersection (map fst m0) ms"
  let ?fs = "set_order w ?cf"
  have dcf: "distinct ?cf"
    using d0 by (rule distinct_foldl_intersection)
  have ms: "mset ?fs = mset ?cf"
    using iter dcf by blast
  have sfs: "set ?fs = set ?cf"
    using ms by (rule mset_eq_setD)
  have dfs: "distinct ?fs"
    using ms dcf by (metis mset_eq_imp_distinct_iff)
  have key: "f \<in> fst ` set m \<longleftrightarrow> map_of m f \<noteq> None" for f and m :: members
    by (simp add: map_of_eq_None_iff)
  have scf: "set ?cf = {f. ?common f}"
    unfolding set_foldl_intersection p using key by auto
  have cfs: "\<forall>f\<in>set ?fs. \<forall>m\<in>set psm. map_of m f \<noteq> None"
    using sfs scf by blast
  have g: "?g = (case validate_types union_types psm ?fs of
                   Inl e \<Rightarrow> Inl e
                 | Inr _ \<Rightarrow> (case common_items m0 ?fs of
                               Inl e \<Rightarrow> Inl e
                             | Inr kvs \<Rightarrow> Inr (sort kvs)))"
    by (simp add: get_union_common_members_def psm p Let_def)
  have A: "\<exists>f. ?common f \<and> ?bad f \<and>
             ?g = Inl (MultipleTypes f {t. \<exists>m\<in>set psm. map_of m f = Some t} union_types)"
    if ex: "\<exists>f. ?common f \<and> ?bad f"
  proof -
    from ex obtain f0 where f0: "?common f0" "?bad f0" by blast
    then have "f0 \<in> set ?fs" using sfs scf by blast
    with f0(2) have "\<exists>f\<in>set ?fs. ?bad f" by blast
    from validate_types_bad [OF pne cfs this, of union_types]
    obtain f where f: "f \<in> set ?fs" "?bad f"
        "validate_types union_types psm ?fs =
           Inl (MultipleTypes f {t. \<exists>m\<in>set psm. map_of m f = Some t} union_types)"
      by blast
    have "?common f" using f(1) cfs by blast
    moreover have "?g = Inl (MultipleTypes f {t. \<exists>m\<in>set psm. map_of m f = Some t} union_types)"
      unfolding g f(3) by simp
    ultimately show ?thesis using f(2) by blast
  qed
  have B: "\<exists>r. ?g = Inr r \<and> sorted r \<and> distinct (map fst r) \<and>
             set r = {(f, t). \<forall>m\<in>set psm. map_of m f = Some t}"
    if none: "\<not> (\<exists>f. ?common f \<and> ?bad f)"
  proof -
    have nb: "\<forall>f\<in>set ?fs. \<not> ?bad f"
      using none cfs by blast
    have v: "validate_types union_types psm ?fs = Inr ()"
      by (rule validate_types_ok [OF pne cfs nb])
    have k0: "\<forall>f\<in>set ?fs. map_of m0 f \<noteq> None"
      using cfs p by simp
    let ?kvs = "map (\<lambda>f. (f, the (map_of m0 f))) ?fs"
    have ci: "common_items m0 ?fs = Inr ?kvs"
      by (rule common_items_keys [OF k0])
    have r: "?g = Inr (sort ?kvs)"
      unfolding g v ci by simp
    have mf: "map fst ?kvs = ?fs"
      by (simp add: comp_def)
    have "mset (map fst (sort ?kvs)) = mset (map fst ?kvs)"
      by (simp only: mset_map mset_sort)
    then have "mset (map fst (sort ?kvs)) = mset ?fs"
      unfolding mf .
    then have "distinct (map fst (sort ?kvs)) = distinct ?fs"
      by (rule mset_eq_imp_distinct_iff)
    then have dr: "distinct (map fst (sort ?kvs))"
      using dfs by simp
    have agree: "map_of m f = map_of m0 f" if "f \<in> set ?fs" "m \<in> set psm" for f m
    proof (rule ccontr)
      assume "map_of m f \<noteq> map_of m0 f"
      moreover have "m0 \<in> set psm" using p by simp
      ultimately have "?bad f" using that(2) by blast
      then show False using nb that(1) by blast
    qed
    have "set ?kvs = {(f, t). \<forall>m\<in>set psm. map_of m f = Some t}"
    proof (intro set_eqI iffI)
      fix x assume "x \<in> set ?kvs"
      then obtain f where f: "f \<in> set ?fs" "x = (f, the (map_of m0 f))"
        by auto
      have "map_of m0 f = Some (the (map_of m0 f))"
        using k0 f(1) by simp
      then have "\<forall>m\<in>set psm. map_of m f = Some (the (map_of m0 f))"
        using agree [OF f(1)] by simp
      then show "x \<in> {(f, t). \<forall>m\<in>set psm. map_of m f = Some t}"
        using f(2) by simp
    next
      fix x assume x: "x \<in> {(f, t). \<forall>m\<in>set psm. map_of m f = Some t}"
      obtain f t where ft: "x = (f, t)" by (cases x) auto
      have all: "\<forall>m\<in>set psm. map_of m f = Some t"
        using x ft by simp
      then have "?common f" by simp
      then have "f \<in> set ?fs" using sfs scf by blast
      moreover have "map_of m0 f = Some t" using all p by simp
      ultimately show "x \<in> set ?kvs" using ft by force
    qed
    then have sr: "set (sort ?kvs) = {(f, t). \<forall>m\<in>set psm. map_of m f = Some t}"
      by simp
    have "sorted (sort ?kvs)" by simp
    with r dr sr show ?thesis by blast
  qed
  from A B show ?thesis by blast
qed

lemma sorted_pairs_fst:
  fixes r :: "(string \<times> string) list"
  shows "sorted r \<Longrightarrow> sorted (map fst r)"
  by (induction r) (auto simp: less_eq_prod_def)




subsection \<open>Determinism\<close>

lemma sort_mset_eq:
  fixes xs ys :: "string list"
  assumes "mset xs = mset ys"
  shows "sort xs = sort ys"
proof (rule properties_for_sort)
  show "mset (sort ys) = mset xs"
    using assms by simp
  show "sorted (sort ys)"
    by simp
qed

lemma Schema_init_os_walk [simp]:
  "Schema_init (w\<lparr>os_walk := wk\<rparr>) u t = Schema_init w u t"
  by (simp add: Schema_init_def)

lemma read_schema_os_walk [simp]:
  "read_schema (w\<lparr>os_walk := wk\<rparr>) f = read_schema w f"
  by (simp add: read_schema_def open_read_def split: sum.splits option.splits)

lemma maybe_write_output_os_walk:
  "maybe_write_output (w\<lparr>os_walk := wk\<rparr>) ls dest =
     map_sum id (\<lambda>v. v\<lparr>os_walk := wk\<rparr>) (maybe_write_output w ls dest)"
  by (auto simp: maybe_write_output_def path_exists_def open_read_def write_text_def
      open_write_error_def Let_def split: option.splits sum.splits)

lemma read_schemas_loop_os_walk [simp]:
  "read_schemas_loop (w\<lparr>os_walk := wk\<rparr>) fs = read_schemas_loop w fs"
  by (induction fs) (simp_all split: sum.splits)

lemma read_schemas_os_walk [simp]:
  "read_schemas (w\<lparr>os_walk := wk\<rparr>) fs = read_schemas w fs"
  by (simp add: read_schemas_def)

lemma read_schemas_loop_map:
  "read_schemas_loop w fs = Inr ss \<Longrightarrow>
   ss = map (\<lambda>f. projr (read_schema w f)) fs \<and> (\<forall>f\<in>set fs. \<not> isl (read_schema w f))"
  by (induction fs arbitrary: ss) (auto split: sum.splits)

lemma read_schemas_loop_all:
  "\<forall>f\<in>set fs. \<not> isl (read_schema w f) \<Longrightarrow>
   read_schemas_loop w fs = Inr (map (\<lambda>f. projr (read_schema w f)) fs)"
  by (induction fs) (auto split: sum.splits)

lemma read_schemas_sorted:
  "read_schemas w fs = Inr ss \<Longrightarrow> sorted (map schema_url ss)"
  by (auto simp: read_schemas_def split: sum.splits)

lemma read_schemas_permuted:
  assumes "read_schemas w fs = Inr ss"
      and "distinct (map schema_url ss)"
      and "mset fs' = mset fs"
  shows "read_schemas w fs' = Inr ss"
proof -
  let ?F = "\<lambda>f. projr (read_schema w f)"
  obtain schs where l: "read_schemas_loop w fs = Inr schs" and ss: "ss = sort_key schema_url schs"
    using assms(1) by (auto simp: read_schemas_def split: sum.splits)
  from read_schemas_loop_map [OF l]
  have schs: "schs = map ?F fs" and ok: "\<forall>f\<in>set fs. \<not> isl (read_schema w f)"
    by simp_all
  have "set fs' = set fs"
    using assms(3) by (rule mset_eq_setD)
  then have "\<forall>f\<in>set fs'. \<not> isl (read_schema w f)"
    using ok by simp
  then have l': "read_schemas_loop w fs' = Inr (map ?F fs')"
    by (rule read_schemas_loop_all)
  have m: "mset (map ?F fs') = mset schs"
    using assms(3) schs by simp
  have "mset (map schema_url ss) = mset (map schema_url schs)"
    using ss by simp
  then have "distinct (map schema_url schs)"
    using assms(2) by (metis mset_eq_imp_distinct_iff)
  then have "inj_on schema_url (set schs)"
    by (simp add: distinct_map)
  then have inj: "inj_on schema_url (set (map ?F fs'))"
    using m by (metis mset_eq_setD)
  have "sort_key schema_url (map ?F fs') = ss"
  proof (rule sort_key_inj_key_eq [OF _ inj])
    show "mset (map ?F fs') = mset ss"
      using m ss by simp
    show "sorted (map schema_url ss)"
      using ss by simp
  qed
  then show ?thesis
    using l' by (simp add: read_schemas_def)
qed

lemma open_read_set_order [simp]:
  "open_read (w\<lparr>set_order := so\<rparr>) p = open_read w p"
  by (simp add: open_read_def split: option.splits)

lemma Schema_init_set_order [simp]:
  "Schema_init (w\<lparr>set_order := so\<rparr>) u t = Schema_init w u t"
  by (simp add: Schema_init_def)

lemma find_schema_loop_set_order [simp]:
  "find_schema_loop (w\<lparr>set_order := so\<rparr>) dir struct entries = find_schema_loop w dir struct entries"
  by (induction entries) (simp_all add: Let_def split: sum.splits)

lemma find_schema_set_order [simp]:
  "find_schema (w\<lparr>set_order := so\<rparr>) pkg struct = find_schema w pkg struct"
  by (simp add: find_schema_def Let_def split: option.splits)

lemma find_struct_set_order [simp]:
  "find_struct (w\<lparr>set_order := so\<rparr>) gofile struct = find_struct w gofile struct"
  by (simp add: find_struct_def)

lemma struct_members_set_order [simp]:
  "struct_members (w\<lparr>set_order := so\<rparr>) gofile pkg struct = struct_members w gofile pkg struct"
  by (simp add: struct_members_def split: sum.splits)

lemma per_struct_members_set_order [simp]:
  "per_struct_members (w\<lparr>set_order := so\<rparr>) gofile pkg uts = per_struct_members w gofile pkg uts"
  by (induction uts) (simp_all split: sum.splits)

lemma common_members_any_order:
  assumes i1: "\<forall>xs. distinct xs \<longrightarrow> mset (set_order w xs) = mset xs"
      and i2: "\<forall>xs. distinct xs \<longrightarrow> mset (so xs) = mset xs"
      and r: "get_union_common_members w gofile pkg uts = Inr r"
  shows "get_union_common_members (w\<lparr>set_order := so\<rparr>) gofile pkg uts = Inr r
         \<and> sorted (map fst r)"
proof -
  let ?w = "w\<lparr>set_order := so\<rparr>"
  obtain psm where psm: "per_struct_members w gofile pkg uts = Inr psm"
    using r by (auto simp: get_union_common_members_def split: sum.splits)
  have ne: "uts \<noteq> []"
    using r by (auto simp: get_union_common_members_def)
  let ?B = "\<exists>f. (\<forall>m\<in>set psm. map_of m f \<noteq> None) \<and>
               (\<exists>m\<in>set psm. \<exists>m'\<in>set psm. map_of m f \<noteq> map_of m' f)"
  note c1 = common_members_char [OF i1 psm ne]
  have nb: "\<not> ?B"
  proof
    assume ?B
    with c1 obtain e where
      "get_union_common_members w gofile pkg uts = Inl e"
      by blast
    with r show False by simp
  qed
  from c1 nb r have r1: "sorted r" "distinct (map fst r)"
      "set r = {(f, t). \<forall>m\<in>set psm. map_of m f = Some t}"
    by auto
  have i2': "\<forall>xs. distinct xs \<longrightarrow> mset (set_order ?w xs) = mset xs"
    using i2 by simp
  have psm': "per_struct_members ?w gofile pkg uts = Inr psm"
    using psm by simp
  from common_members_char [OF i2' psm' ne] nb
  obtain r2 where r2: "get_union_common_members ?w gofile pkg uts = Inr r2" "sorted r2"
      "distinct (map fst r2)" "set r2 = {(f, t). \<forall>m\<in>set psm. map_of m f = Some t}"
    by blast
  have "distinct r" "distinct r2"
    using r1(2) r2(3) by (simp_all add: distinct_map)
  then have "r2 = r"
    using r1(1,3) r2(2,4) by (auto intro: sorted_distinct_set_unique)
  moreover have "sorted (map fst r)"
    using r1(1) by (rule sorted_pairs_fst)
  ultimately show ?thesis
    using r2(1) by simp
qed

text \<open>
  C5. The files of a package are listed in sorted order, whatever the order in which
  \<open>os.walk\<close> yields them. So, for a world that differs from another one only in what
  \<open>os.walk\<close> yields, with the same files found in every package: the lines of the
  aggregate module are the same (or the error is), and so are the files, the
  standard output and the record of the writes after \<open>go_root_main\<close>. The schemas
  that \<open>read_schemas\<close> returns are sorted by URL; and where their URLs are distinct,
  \<open>read_schemas\<close> returns the same list for every permutation of the list of files.
  The common members that \<open>get_union_common_members\<close> returns are sorted by field
  name, and they are the same for every order in which the interpreter iterates over
  a set.
\<close>

theorem generation_is_deterministic:
  "(mset (walk_out w' pkg) = mset (walk_out w pkg) \<longrightarrow> list_files w' pkg = list_files w pkg)
   \<and> ((\<forall>p\<in>set ALL_PKGS. mset (walk_out (w\<lparr>os_walk := wk\<rparr>) p) = mset (walk_out w p)) \<longrightarrow>
        map_sum id gen_go_schemas_package
          (read_schemas (w\<lparr>os_walk := wk\<rparr>)
             (concat (map (list_files (w\<lparr>os_walk := wk\<rparr>)) ALL_PKGS)))
        = map_sum id gen_go_schemas_package
            (read_schemas w (concat (map (list_files w) ALL_PKGS))) \<and>
        map_sum id files (go_root_main (w\<lparr>os_walk := wk\<rparr>) dest)
        = map_sum id files (go_root_main w dest) \<and>
        map_sum id stdout (go_root_main (w\<lparr>os_walk := wk\<rparr>) dest)
        = map_sum id stdout (go_root_main w dest) \<and>
        map_sum id written (go_root_main (w\<lparr>os_walk := wk\<rparr>) dest)
        = map_sum id written (go_root_main w dest))
   \<and> (read_schemas w fs = Inr ss \<longrightarrow> sorted (map schema_url ss))
   \<and> (read_schemas w fs = Inr ss \<and> distinct (map schema_url ss) \<and> mset fs' = mset fs \<longrightarrow>
        read_schemas w fs' = Inr ss)
   \<and> ((\<forall>xs. distinct xs \<longrightarrow> mset (set_order w xs) = mset xs) \<and>
       (\<forall>xs. distinct xs \<longrightarrow> mset (so xs) = mset xs) \<and>
       get_union_common_members w gofile pkg uts = Inr r \<longrightarrow>
        get_union_common_members (w\<lparr>set_order := so\<rparr>) gofile pkg uts = Inr r \<and>
        sorted (map fst r))"
proof -
  let ?w = "w\<lparr>os_walk := wk\<rparr>"
  have a: "mset (walk_out w' pkg) = mset (walk_out w pkg) \<longrightarrow>
           list_files w' pkg = list_files w pkg"
    by (auto simp: list_files_def intro: sort_mset_eq)
  have b: "map_sum id gen_go_schemas_package
             (read_schemas ?w (concat (map (list_files ?w) ALL_PKGS)))
           = map_sum id gen_go_schemas_package
               (read_schemas w (concat (map (list_files w) ALL_PKGS))) \<and>
           map_sum id files (go_root_main ?w dest) = map_sum id files (go_root_main w dest) \<and>
           map_sum id stdout (go_root_main ?w dest) = map_sum id stdout (go_root_main w dest) \<and>
           map_sum id written (go_root_main ?w dest)
           = map_sum id written (go_root_main w dest)"
    if h: "\<forall>p\<in>set ALL_PKGS. mset (walk_out ?w p) = mset (walk_out w p)"
  proof -
    have "list_files ?w p = list_files w p" if "p \<in> set ALL_PKGS" for p
      using h that by (auto simp: list_files_def intro: sort_mset_eq)
    then have lf: "map (list_files ?w) ALL_PKGS = map (list_files w) ALL_PKGS"
      by simp
    have rs: "read_schemas ?w (concat (map (list_files ?w) ALL_PKGS))
              = read_schemas w (concat (map (list_files w) ALL_PKGS))"
      unfolding lf by simp
    show ?thesis
    proof (cases "read_schemas w (concat (map (list_files w) ALL_PKGS))")
      case (Inl e)
      then show ?thesis
        using rs by (simp add: go_root_main_def)
    next
      case (Inr schs)
      then show ?thesis
        using rs
        by (simp add: go_root_main_def maybe_write_output_os_walk sum.map_comp comp_def id_def)
    qed
  qed
  have c: "read_schemas w fs = Inr ss \<longrightarrow> sorted (map schema_url ss)"
    using read_schemas_sorted by blast
  have d: "read_schemas w fs = Inr ss \<and> distinct (map schema_url ss) \<and> mset fs' = mset fs \<longrightarrow>
           read_schemas w fs' = Inr ss"
    using read_schemas_permuted by blast
  have e: "(\<forall>xs. distinct xs \<longrightarrow> mset (set_order w xs) = mset xs) \<and>
       (\<forall>xs. distinct xs \<longrightarrow> mset (so xs) = mset xs) \<and>
       get_union_common_members w gofile pkg uts = Inr r \<longrightarrow>
        get_union_common_members (w\<lparr>set_order := so\<rparr>) gofile pkg uts = Inr r \<and>
        sorted (map fst r)"
    using common_members_any_order [of w so gofile pkg uts r] by blast
  from a b c d e show ?thesis by blast
qed

theorem generation_is_deterministic_witness:
  "list_files (example_world\<lparr>os_walk := other_walk\<rparr>) ''expconf''
     = list_files example_world ''expconf''
   \<and> map_sum id gen_go_schemas_package
        (read_schemas (example_world\<lparr>os_walk := other_walk\<rparr>)
           (concat (map (list_files (example_world\<lparr>os_walk := other_walk\<rparr>)) ALL_PKGS)))
      = map_sum id gen_go_schemas_package
          (read_schemas example_world (concat (map (list_files example_world) ALL_PKGS)))
   \<and> map_sum id (map schema_url)
        (read_schemas example_world [''/s/expconf/v1/a.json'', ''/s/expconf/v1/u.json''])
      = Inr [''http://determined.ai/schemas/expconf/v1/a.json'',
             ''http://determined.ai/schemas/expconf/v1/u.json'']
   \<and> read_schemas example_world [''/s/expconf/v1/a.json'', ''/s/expconf/v1/u.json'']
      = read_schemas example_world [''/s/expconf/v1/u.json'', ''/s/expconf/v1/a.json'']
   \<and> get_union_common_members (example_world\<lparr>set_order := rev\<rparr>) ''x.go'' ''expconf''
        [''AV1'', ''BV1'']
      = Inr [(''Name'', ''string'')]"
proof -
  let ?w = example_world
  let ?w' = "example_world\<lparr>os_walk := other_walk\<rparr>"
  let ?ua = "[''/s/expconf/v1/u.json'', ''/s/expconf/v1/a.json'']"
  let ?au = "[''/s/expconf/v1/a.json'', ''/s/expconf/v1/u.json'']"
  let ?ss = "[\<lparr>schema_url = ''http://determined.ai/schemas/expconf/v1/a.json'',
              schema_text = ''{A}'', schema_json = a_json, golang_title = ''AV1'',
              python_title = ''av1''\<rparr>,
             \<lparr>schema_url = ''http://determined.ai/schemas/expconf/v1/u.json'',
              schema_text = ''{U}'', schema_json = u_json, golang_title = ''UV1'',
              python_title = ''uv1''\<rparr>]"
  note T = generation_is_deterministic [where w = ?w and w' = ?w' and wk = other_walk
      and pkg = "''expconf''" and fs = ?ua and fs' = ?au and ss = ?ss and so = rev
      and gofile = "''x.go''" and uts = "[''AV1'', ''BV1'']" and r = "[(''Name'', ''string'')]"]
  have o1: "walk_out ?w' ''expconf''
              = [''/s/expconf/v1/a.json'', ''/s/expconf/v1/d.json'', ''/s/expconf/v1/b.json'',
                 ''/s/expconf/v1/u.json'']"
    by code_simp
  have o2: "walk_out ?w ''expconf''
              = [''/s/expconf/v1/u.json'', ''/s/expconf/v1/d.json'', ''/s/expconf/v1/b.json'',
                 ''/s/expconf/v1/a.json'']"
    by code_simp
  have h1: "mset (walk_out ?w' ''expconf'') = mset (walk_out ?w ''expconf'')"
    unfolding o1 o2 by (simp add: add_mset_commute)
  have h2: "\<forall>p\<in>set ALL_PKGS. mset (walk_out ?w' p) = mset (walk_out ?w p)"
    using h1 by (simp add: ALL_PKGS_def)
  have 1: "list_files ?w' ''expconf'' = list_files ?w ''expconf''"
    by (rule T [THEN conjunct1, THEN mp, OF h1])
  have 2: "map_sum id gen_go_schemas_package
             (read_schemas ?w' (concat (map (list_files ?w') ALL_PKGS)))
           = map_sum id gen_go_schemas_package
               (read_schemas ?w (concat (map (list_files ?w) ALL_PKGS)))"
    by (rule T [THEN conjunct2, THEN conjunct1, THEN mp, OF h2, THEN conjunct1])
  have r3: "read_schemas ?w ?ua = Inr ?ss"
    by code_simp
  have d3: "distinct (map schema_url ?ss)"
    by simp
  have m3: "mset ?au = mset ?ua"
    by (simp add: add_mset_commute)
  have r4: "read_schemas ?w ?au = Inr ?ss"
    by (rule T [THEN conjunct2, THEN conjunct2, THEN conjunct2, THEN conjunct1, THEN mp,
          OF conjI [OF r3 conjI [OF d3 m3]]])
  have 3: "map_sum id (map schema_url) (read_schemas ?w ?au)
      = Inr [''http://determined.ai/schemas/expconf/v1/a.json'',
             ''http://determined.ai/schemas/expconf/v1/u.json'']"
    unfolding r4 by simp
  have 4: "read_schemas ?w ?au = read_schemas ?w ?ua"
    unfolding r4 r3 ..
  have i1: "\<forall>xs. distinct xs \<longrightarrow> mset (set_order ?w xs) = mset xs"
    by (simp add: example_world_def)
  have i2: "\<forall>xs. distinct xs \<longrightarrow> mset (rev xs) = mset xs"
    by simp
  have g5: "get_union_common_members ?w ''x.go'' ''expconf'' [''AV1'', ''BV1'']
              = Inr [(''Name'', ''string'')]"
    by code_simp
  have 5: "get_union_common_members (?w\<lparr>set_order := rev\<rparr>) ''x.go'' ''expconf''
             [''AV1'', ''BV1''] = Inr [(''Name'', ''string'')]"
    by (rule T [THEN conjunct2, THEN conjunct2, THEN conjunct2, THEN conjunct2, THEN mp,
          OF conjI [OF i1 conjI [OF i2 g5]], THEN conjunct1])
  from 1 2 3 4 5 show ?thesis by (intro conjI)
qed

end
